theory Spec2Isabelle
  imports Main "HOL-Library.Multiset" "HOL-Library.AList"
begin

section \<open>Cards and the hand evaluator\<close>

text \<open>
  The Lucky Triple server exists in two variants in the repository:
  \<^verbatim>\<open>theluckytriple-server.js\<close>, whose registry \<^verbatim>\<open>luckyTripleGames\<close> is keyed by
  gameId, and \<^verbatim>\<open>unnamed/part_000\<close>, whose registry \<^verbatim>\<open>playerGameSessions\<close> is keyed
  by playerId. Code that is the same in both files is modelled once; where they differ the
  definitions carry the suffix \<open>_g\<close> (gameId-keyed file) or \<open>_p\<close> (playerId-keyed file).
\<close>

datatype suit = Hearts | Diamonds | Clubs | Spades

datatype rank = Ace | Two | Three | Four | Five | Six

text \<open>A card object \<^verbatim>\<open>{ suit, rank, hidden: false }\<close>.\<close>

record card =
  suit :: suit
  rank :: rank
  hidden :: bool

text \<open>\<^verbatim>\<open>RANK_ORDER\<close>: 'A' is 1, '2' .. '6' are 2 .. 6.\<close>

fun RANK_ORDER :: "rank \<Rightarrow> int" where
  "RANK_ORDER Ace = 1"
| "RANK_ORDER Two = 2"
| "RANK_ORDER Three = 3"
| "RANK_ORDER Four = 4"
| "RANK_ORDER Five = 5"
| "RANK_ORDER Six = 6"

text \<open>The combination labels 'Lucky Triple', 'Triple', 'Straight Flush', 'Straight',
  'Flush' and 'None'.\<close>

datatype combination =
  LuckyTriple | Triple | StraightFlush | Straight | Flush | NoneCombination

text \<open>\<^verbatim>\<open>REWARDS\<close>, in the order of the table in the source.\<close>

fun REWARDS :: "combination \<Rightarrow> int" where
  "REWARDS LuckyTriple = 15"
| "REWARDS Triple = 9"
| "REWARDS StraightFlush = 12"
| "REWARDS Straight = 6"
| "REWARDS Flush = 5"
| "REWARDS NoneCombination = 0"

record handResult =
  combination :: combination
  reward :: int

text \<open>\<^verbatim>\<open>cards.every(card => card.suit === cards[0].suit)\<close>\<close>

definition sameSuit :: "card list \<Rightarrow> bool" where
  "sameSuit cards = list_all (\<lambda>c. suit c = suit (cards ! 0)) cards"

text \<open>\<^verbatim>\<open>cards.every(card => card.rank === cards[0].rank)\<close>\<close>

definition sameRank :: "card list \<Rightarrow> bool" where
  "sameRank cards = list_all (\<lambda>c. rank c = rank (cards ! 0)) cards"

text \<open>\<^verbatim>\<open>[...cards].sort((a, b) => RANK_ORDER[a.rank] - RANK_ORDER[b.rank])\<close>: a stable
  sort by rank value, ascending.\<close>

definition sortedCards :: "card list \<Rightarrow> card list" where
  "sortedCards cards = sort_key (\<lambda>c. RANK_ORDER (rank c)) cards"

text \<open>The \<^verbatim>\<open>every\<close> over the sorted cards: index 0 passes, every other index needs a
  gap of exactly 1 to its predecessor.\<close>

definition isStraight :: "card list \<Rightarrow> bool" where
  "isStraight sorted_cards =
     list_all
       (\<lambda>index. index = 0 \<or>
          RANK_ORDER (rank (sorted_cards ! index))
            - RANK_ORDER (rank (sorted_cards ! (index - 1))) = 1)
       [0..<length sorted_cards]"

definition evaluateHandCombination :: "card list \<Rightarrow> handResult" where
  "evaluateHandCombination cards =
     (if length cards \<noteq> 3 then \<lparr>combination = NoneCombination, reward = 0\<rparr>
      else if sameRank cards \<and> sameSuit cards
        then \<lparr>combination = LuckyTriple, reward = REWARDS LuckyTriple\<rparr>
      else if sameRank cards
        then \<lparr>combination = Triple, reward = REWARDS Triple\<rparr>
      else if isStraight (sortedCards cards) \<and> sameSuit cards
        then \<lparr>combination = StraightFlush, reward = REWARDS StraightFlush\<rparr>
      else if isStraight (sortedCards cards)
        then \<lparr>combination = Straight, reward = REWARDS Straight\<rparr>
      else if sameSuit cards
        then \<lparr>combination = Flush, reward = REWARDS Flush\<rparr>
      else \<lparr>combination = NoneCombination, reward = REWARDS NoneCombination\<rparr>)"

text \<open>The condition each branch of the if-chain tests, taken on its own (without the
  failure of the branches above it).\<close>

fun branch_condition :: "combination \<Rightarrow> card list \<Rightarrow> bool" where
  "branch_condition LuckyTriple cards = (sameRank cards \<and> sameSuit cards)"
| "branch_condition Triple cards = sameRank cards"
| "branch_condition StraightFlush cards = (isStraight (sortedCards cards) \<and> sameSuit cards)"
| "branch_condition Straight cards = isStraight (sortedCards cards)"
| "branch_condition Flush cards = sameSuit cards"
| "branch_condition NoneCombination cards = True"

text \<open>The six rules as the specification words them (section 4.1), for a hand of three
  cards: ranks all equal, suits all equal, and the consecutiveness test "sort the 3 ranks by
  value; consecutive iff each adjacent gap equals exactly 1".\<close>

definition spec_same_rank :: "card \<Rightarrow> card \<Rightarrow> card \<Rightarrow> bool" where
  "spec_same_rank a b c = (rank a = rank b \<and> rank b = rank c)"

definition spec_same_suit :: "card \<Rightarrow> card \<Rightarrow> card \<Rightarrow> bool" where
  "spec_same_suit a b c = (suit a = suit b \<and> suit b = suit c)"

definition spec_consecutive :: "card \<Rightarrow> card \<Rightarrow> card \<Rightarrow> bool" where
  "spec_consecutive a b c =
     (case sort [RANK_ORDER (rank a), RANK_ORDER (rank b), RANK_ORDER (rank c)] of
        [x, y, z] \<Rightarrow> y - x = 1 \<and> z - y = 1
      | _ \<Rightarrow> False)"

fun spec_winning_rule :: "combination \<Rightarrow> card \<Rightarrow> card \<Rightarrow> card \<Rightarrow> bool" where
  "spec_winning_rule LuckyTriple a b c = (spec_same_rank a b c \<and> spec_same_suit a b c)"
| "spec_winning_rule Triple a b c = (spec_same_rank a b c \<and> \<not> spec_same_suit a b c)"
| "spec_winning_rule StraightFlush a b c = (spec_consecutive a b c \<and> spec_same_suit a b c)"
| "spec_winning_rule Straight a b c = (spec_consecutive a b c \<and> \<not> spec_same_suit a b c)"
| "spec_winning_rule Flush a b c =
     (spec_same_suit a b c \<and> \<not> spec_consecutive a b c \<and> \<not> spec_same_rank a b c)"
| "spec_winning_rule NoneCombination a b c = False"

text \<open>Rule 6 is "otherwise": none of the rules 1 to 5 applies.\<close>

definition spec_rule :: "combination \<Rightarrow> card \<Rightarrow> card \<Rightarrow> card \<Rightarrow> bool" where
  "spec_rule L a b c =
     (if L = NoneCombination
      then \<not> list_ex (\<lambda>K. spec_winning_rule K a b c)
                 [LuckyTriple, Triple, StraightFlush, Straight, Flush]
      else spec_winning_rule L a b c)"

section \<open>The deck\<close>

text \<open>The 24 cards in the order \<^verbatim>\<open>createAndShuffleLuckyTripleDeck\<close> pushes them: suit by
  suit, values 1 to 6 within a suit.\<close>

definition unshuffledDeck :: "card list" where
  "unshuffledDeck =
     concat (map (\<lambda>s. map (\<lambda>r. \<lparr>suit = s, rank = r, hidden = False\<rparr>)
                           [Ace, Two, Three, Four, Five, Six])
                 [Hearts, Diamonds, Clubs, Spades])"

text \<open>The Fisher-Yates loop \<^verbatim>\<open>for (let i = deck.length - 1; i > 0; i--)\<close>. The random
  source is a parameter: \<open>rnd i\<close> stands for the draw made at index \<open>i\<close>, and
  \<^verbatim>\<open>Math.floor(Math.random() * (i + 1))\<close> is a value in \<open>0..i\<close>, here \<open>rnd i mod (i + 1)\<close>.
  The destructuring swap reads both cells before it writes.\<close>

fun fisherYates :: "(nat \<Rightarrow> nat) \<Rightarrow> nat \<Rightarrow> card list \<Rightarrow> card list" where
  "fisherYates rnd 0 d = d"
| "fisherYates rnd (Suc n) d =
     (let i = Suc n; j = rnd i mod (i + 1)
      in fisherYates rnd n (d[i := d ! j, j := d ! i]))"

definition createAndShuffleLuckyTripleDeck :: "(nat \<Rightarrow> nat) \<Rightarrow> card list" where
  "createAndShuffleLuckyTripleDeck rnd =
     fisherYates rnd (length unshuffledDeck - 1) unshuffledDeck"

section \<open>Game state\<close>

text \<open>The game state object built by the start and reset endpoints. \<open>lastActionTime\<close>
  exists in the playerId-keyed file only; the functions of the gameId-keyed file neither
  read nor write it. \<open>heldCards\<close> holds the \<^verbatim>\<open>cardIndexes\<close> of the last hold request, a
  JSON array of integers.\<close>

record gameState =
  gameId :: string
  playerId :: string
  deck :: "card list"
  cards :: "card list"
  heldCards :: "int list"
  timestamp :: int
  lastActionTime :: int
  currentCombination :: combination
  currentReward :: int
  roundsPlayed :: int
  maxRounds :: int
  isEnded :: bool
  timedOut :: bool
  rewardPaid :: bool

text \<open>\<^verbatim>\<open>GAME_CONFIG\<close>\<close>

definition MAX_ROUNDS :: int where
  "MAX_ROUNDS = 3"

definition GAME_TIMEOUT_MS :: int where
  "GAME_TIMEOUT_MS = 60 * 1000"

text \<open>The state both start and reset store for a new game.\<close>

definition newGameState :: "string \<Rightarrow> string \<Rightarrow> card list \<Rightarrow> int \<Rightarrow> gameState" where
  "newGameState gid pid d startTime =
     \<lparr>gameId = gid, playerId = pid, deck = d, cards = [], heldCards = [],
      timestamp = startTime, lastActionTime = startTime,
      currentCombination = NoneCombination, currentReward = 0, roundsPlayed = 0,
      maxRounds = MAX_ROUNDS, isEnded = False, timedOut = False, rewardPaid = False\<rparr>"

datatype gameResult = Win | Loss | Timeout

text \<open>An entry of \<^verbatim>\<open>completedGames\<close>.\<close>

record completedGame =
  cg_playerId :: string
  cg_result :: gameResult
  cg_timestamp :: int
  cg_processed :: bool

section \<open>The payout ledger\<close>

datatype payoutStatus = Pending | Completed | Failed

text \<open>\<open>paidRewards\<close> is the ledger \<^verbatim>\<open>paidRewards\<close>. \<open>submitted\<close> logs every call of
  \<^verbatim>\<open>connection.sendRawTransaction\<close> (receiver, gameId, rewardAmount): the payouts that
  reached the chain. \<open>inFlight\<close> holds the calls of \<^verbatim>\<open>sendCardsReward\<close> that are suspended
  at an \<^verbatim>\<open>await\<close>, after the ledger was marked.\<close>

record payouts =
  paidRewards :: "(string \<times> payoutStatus) list"
  submitted :: "(string \<times> string \<times> int) list"
  inFlight :: "(string \<times> string \<times> int) list"

text \<open>\<^verbatim>\<open>`${receiverAddress}-${gameId}`\<close>\<close>

definition transactionKey :: "string \<Rightarrow> string \<Rightarrow> string" where
  "transactionKey receiverAddress gid = receiverAddress @ ''-'' @ gid"

text \<open>What the chain does to one transfer. \<open>FailsBeforeSend\<close>: an account lookup throws,
  the receiver has no token account, or the blockhash request throws, so
  \<^verbatim>\<open>sendRawTransaction\<close> is never called. \<open>SendThrows\<close>: \<^verbatim>\<open>sendRawTransaction\<close> is called
  and throws. \<open>ConfirmThrows\<close>: it returns a signature and the confirmation then throws.
  \<open>Confirms\<close>: it returns a signature and the confirmation succeeds.\<close>

datatype chainReply = FailsBeforeSend | SendThrows | ConfirmThrows string | Confirms string

text \<open>How the synchronous part of \<^verbatim>\<open>sendCardsReward\<close> ends: \<^verbatim>\<open>new PublicKey\<close> throws,
  the ledger already has the key and the function returns null, or the key is marked
  pending and the function suspends at its first \<^verbatim>\<open>await\<close>.\<close>

datatype sendStart = ThrowsInvalidAddress | ReturnsNull | AwaitsChain

text \<open>How a call of \<^verbatim>\<open>sendCardsReward\<close> ends for its caller.\<close>

datatype sendResult = Rejects | ResolvesNull | ResolvesSignature string

text \<open>The part of \<^verbatim>\<open>sendCardsReward\<close> that runs before its first \<^verbatim>\<open>await\<close>, without
  interruption. \<open>validPublicKey\<close> says whether \<^verbatim>\<open>new PublicKey(receiverAddress)\<close>
  succeeds.\<close>

definition sendCardsReward_start ::
  "(string \<Rightarrow> bool) \<Rightarrow> string \<Rightarrow> string \<Rightarrow> int \<Rightarrow> payouts \<Rightarrow> sendStart \<times> payouts" where
  "sendCardsReward_start validPublicKey receiverAddress gid rewardAmount p =
     (if \<not> validPublicKey receiverAddress then (ThrowsInvalidAddress, p)
      else if map_of (paidRewards p) (transactionKey receiverAddress gid) \<noteq> None
        then (ReturnsNull, p)
      else (AwaitsChain,
            p\<lparr>paidRewards :=
                 AList.update (transactionKey receiverAddress gid) Pending (paidRewards p),
               inFlight := inFlight p @ [(receiverAddress, gid, rewardAmount)]\<rparr>))"

text \<open>The rest of a suspended call, once the chain has answered. The gameId-keyed file
  waits for \<^verbatim>\<open>confirmTransaction\<close> before it marks the entry completed.\<close>

fun sendCardsReward_finish_g ::
  "chainReply \<Rightarrow> string \<times> string \<times> int \<Rightarrow> payouts \<Rightarrow> sendResult \<times> payouts" where
  "sendCardsReward_finish_g FailsBeforeSend (receiverAddress, gid, rewardAmount) p =
     (Rejects,
      p\<lparr>paidRewards :=
           AList.update (transactionKey receiverAddress gid) Failed (paidRewards p)\<rparr>)"
| "sendCardsReward_finish_g SendThrows (receiverAddress, gid, rewardAmount) p =
     (Rejects,
      p\<lparr>submitted := submitted p @ [(receiverAddress, gid, rewardAmount)],
        paidRewards :=
           AList.update (transactionKey receiverAddress gid) Failed (paidRewards p)\<rparr>)"
| "sendCardsReward_finish_g (ConfirmThrows signature) (receiverAddress, gid, rewardAmount) p =
     (Rejects,
      p\<lparr>submitted := submitted p @ [(receiverAddress, gid, rewardAmount)],
        paidRewards :=
           AList.update (transactionKey receiverAddress gid) Failed (paidRewards p)\<rparr>)"
| "sendCardsReward_finish_g (Confirms signature) (receiverAddress, gid, rewardAmount) p =
     (ResolvesSignature signature,
      p\<lparr>submitted := submitted p @ [(receiverAddress, gid, rewardAmount)],
        paidRewards :=
           AList.update (transactionKey receiverAddress gid) Completed (paidRewards p)\<rparr>)"

text \<open>The playerId-keyed file marks the entry completed as soon as
  \<^verbatim>\<open>sendRawTransaction\<close> has returned, and never asks for a confirmation.\<close>

fun sendCardsReward_finish_p ::
  "chainReply \<Rightarrow> string \<times> string \<times> int \<Rightarrow> payouts \<Rightarrow> sendResult \<times> payouts" where
  "sendCardsReward_finish_p FailsBeforeSend (receiverAddress, gid, rewardAmount) p =
     (Rejects,
      p\<lparr>paidRewards :=
           AList.update (transactionKey receiverAddress gid) Failed (paidRewards p)\<rparr>)"
| "sendCardsReward_finish_p SendThrows (receiverAddress, gid, rewardAmount) p =
     (Rejects,
      p\<lparr>submitted := submitted p @ [(receiverAddress, gid, rewardAmount)],
        paidRewards :=
           AList.update (transactionKey receiverAddress gid) Failed (paidRewards p)\<rparr>)"
| "sendCardsReward_finish_p (ConfirmThrows signature) (receiverAddress, gid, rewardAmount) p =
     (ResolvesSignature signature,
      p\<lparr>submitted := submitted p @ [(receiverAddress, gid, rewardAmount)],
        paidRewards :=
           AList.update (transactionKey receiverAddress gid) Completed (paidRewards p)\<rparr>)"
| "sendCardsReward_finish_p (Confirms signature) (receiverAddress, gid, rewardAmount) p =
     (ResolvesSignature signature,
      p\<lparr>submitted := submitted p @ [(receiverAddress, gid, rewardAmount)],
        paidRewards :=
           AList.update (transactionKey receiverAddress gid) Completed (paidRewards p)\<rparr>)"

text \<open>Removing the \<open>n\<close>-th suspended call from the list.\<close>

definition dropCall :: "nat \<Rightarrow> 'a list \<Rightarrow> 'a list" where
  "dropCall n xs = take n xs @ drop (Suc n) xs"

text \<open>The \<open>n\<close>-th suspended call resumes with the chain's answer; nothing happens when
  there is no such call. \<open>confirms\<close> tells which file's function runs: True for the
  gameId-keyed file.\<close>

definition sendCardsReward_resume ::
  "bool \<Rightarrow> nat \<Rightarrow> chainReply \<Rightarrow> payouts \<Rightarrow> payouts" where
  "sendCardsReward_resume confirms n reply p =
     (if n < length (inFlight p)
      then snd ((if confirms then sendCardsReward_finish_g else sendCardsReward_finish_p)
                  reply (inFlight p ! n) (p\<lparr>inFlight := dropCall n (inFlight p)\<rparr>))
      else p)"

text \<open>A whole call of \<^verbatim>\<open>sendCardsReward\<close> with nothing running in between.\<close>

definition sendCardsReward ::
  "bool \<Rightarrow> (string \<Rightarrow> bool) \<Rightarrow> chainReply \<Rightarrow> string \<Rightarrow> string \<Rightarrow> int \<Rightarrow> payouts
     \<Rightarrow> sendResult \<times> payouts" where
  "sendCardsReward confirms validPublicKey reply receiverAddress gid rewardAmount p =
     (case sendCardsReward_start validPublicKey receiverAddress gid rewardAmount p of
        (ThrowsInvalidAddress, p') \<Rightarrow> (Rejects, p')
      | (ReturnsNull, p') \<Rightarrow> (ResolvesNull, p')
      | (AwaitsChain, p') \<Rightarrow>
          (if confirms then sendCardsReward_finish_g else sendCardsReward_finish_p)
            reply (receiverAddress, gid, rewardAmount)
            (p'\<lparr>inFlight := butlast (inFlight p')\<rparr>))"

text \<open>\<^verbatim>\<open>processReward\<close>, the same in both files: it marks the game state paid whenever the
  awaited \<^verbatim>\<open>sendCardsReward\<close> does not throw.\<close>

definition processReward ::
  "bool \<Rightarrow> (string \<Rightarrow> bool) \<Rightarrow> chainReply \<Rightarrow> gameState \<Rightarrow> payouts \<Rightarrow> gameState \<times> payouts" where
  "processReward confirms validPublicKey reply gs p =
     (if rewardPaid gs then (gs, p)
      else if currentReward gs \<le> 0 then (gs, p)
      else (case sendCardsReward confirms validPublicKey reply
                   (playerId gs) (gameId gs) (currentReward gs) p of
              (Rejects, p') \<Rightarrow> (gs, p')
            | (_, p') \<Rightarrow> (gs\<lparr>rewardPaid := True\<rparr>, p')))"

text \<open>\<^verbatim>\<open>key.split('-')\<close>: the pieces of a string between its dashes (one piece more
  than there are dashes).\<close>

fun splitDash :: "string \<Rightarrow> string list" where
  "splitDash [] = [[]]"
| "splitDash (c # cs) =
     (if c = CHR ''-'' then [] # splitDash cs
      else (case splitDash cs of
              [] \<Rightarrow> [[c]]
            | part # parts \<Rightarrow> (c # part) # parts))"

text \<open>\<^verbatim>\<open>parseInt(text, 10)\<close>: leading white space is skipped, one sign is accepted, and
  the decimal digits that follow are read; without a digit there the result is NaN, here
  \<open>None\<close>. White space is the ASCII white space (tab, line feed, vertical tab, form feed,
  carriage return, space).\<close>

definition isWhiteSpace :: "char \<Rightarrow> bool" where
  "isWhiteSpace c = (of_char c \<in> set [9, 10, 11, 12, 13, 32 :: nat])"

definition isDigit :: "char \<Rightarrow> bool" where
  "isDigit c = (48 \<le> (of_char c :: nat) \<and> (of_char c :: nat) \<le> 57)"

definition digitValue :: "char \<Rightarrow> int" where
  "digitValue c = int (of_char c) - 48"

definition parseInt10 :: "string \<Rightarrow> int option" where
  "parseInt10 s =
     (let t = dropWhile isWhiteSpace s;
          negative = (case t of [] \<Rightarrow> False | c # r \<Rightarrow> c = CHR ''-'');
          u = (case t of
                 [] \<Rightarrow> []
               | c # r \<Rightarrow> if c = CHR ''+'' \<or> c = CHR ''-'' then r else t);
          digits = takeWhile isDigit u
      in if digits = [] then None
         else Some ((if negative then - 1 else 1)
                      * foldl (\<lambda>acc c. 10 * acc + digitValue c) 0 digits))"

text \<open>The test \<^verbatim>\<open>cleanupOldPaidRewards\<close> makes on one key: it has at least two pieces, the
  second piece parses as a number, and that number is below the threshold.\<close>

definition prunable :: "int \<Rightarrow> string \<Rightarrow> bool" where
  "prunable sevenDaysAgo key =
     (case splitDash key of
        accountPart # timestampPart # others \<Rightarrow>
          (case parseInt10 timestampPart of
             None \<Rightarrow> False
           | Some keyTime \<Rightarrow> keyTime < sevenDaysAgo)
      | _ \<Rightarrow> False)"

text \<open>\<^verbatim>\<open>cleanupOldPaidRewards\<close>, run once a week by \<^verbatim>\<open>setInterval\<close>: every entry of the
  ledger whose key passes the test is deleted, whatever its status. \<open>now\<close> is the value of
  \<^verbatim>\<open>Date.now()\<close>.\<close>

definition cleanupOldPaidRewards :: "int \<Rightarrow> payouts \<Rightarrow> payouts" where
  "cleanupOldPaidRewards now p =
     (let sevenDaysAgo = now - 7 * 24 * 60 * 60 * 1000
      in p\<lparr>paidRewards :=
             filter (\<lambda>(key, status). \<not> prunable sevenDaysAgo key) (paidRewards p)\<rparr>)"

text \<open>The keys of the entries that run of \<^verbatim>\<open>cleanupOldPaidRewards\<close> deletes.\<close>

definition deletedKeys :: "int \<Rightarrow> payouts \<Rightarrow> string list" where
  "deletedKeys now p =
     map fst (filter (\<lambda>(key, status). prunable (now - 7 * 24 * 60 * 60 * 1000) key)
                (paidRewards p))"

text \<open>What happens to the ledger, in any interleaving: a call of \<^verbatim>\<open>sendCardsReward\<close> runs
  its synchronous part at once, a suspended call resumes when the chain answers, and the
  weekly cleanup runs.\<close>

datatype payoutEvent = Call string string int | Resume nat chainReply | Cleanup int

fun payoutStep :: "bool \<Rightarrow> (string \<Rightarrow> bool) \<Rightarrow> payouts \<Rightarrow> payoutEvent \<Rightarrow> payouts" where
  "payoutStep confirms validPublicKey p (Call receiverAddress gid rewardAmount) =
     snd (sendCardsReward_start validPublicKey receiverAddress gid rewardAmount p)"
| "payoutStep confirms validPublicKey p (Resume n reply) =
     sendCardsReward_resume confirms n reply p"
| "payoutStep confirms validPublicKey p (Cleanup now) =
     cleanupOldPaidRewards now p"

definition noPayouts :: payouts where
  "noPayouts = \<lparr>paidRewards = [], submitted = [], inFlight = []\<rparr>"

definition runPayouts :: "bool \<Rightarrow> (string \<Rightarrow> bool) \<Rightarrow> payoutEvent list \<Rightarrow> payouts" where
  "runPayouts confirms validPublicKey events =
     foldl (payoutStep confirms validPublicKey) noPayouts events"

text \<open>How many logged submissions are for a given receiver and game.\<close>

definition submissionsFor :: "string \<Rightarrow> string \<Rightarrow> payouts \<Rightarrow> nat" where
  "submissionsFor receiverAddress gid p =
     length (filter (\<lambda>(r, g, a). r = receiverAddress \<and> g = gid) (submitted p))"

text \<open>The keys of the ledger entries a run deletes, once for every deletion, from the
  ledger \<open>p\<close> on.\<close>

fun prunedKeys ::
  "bool \<Rightarrow> (string \<Rightarrow> bool) \<Rightarrow> payouts \<Rightarrow> payoutEvent list \<Rightarrow> string list" where
  "prunedKeys confirms validPublicKey p [] = []"
| "prunedKeys confirms validPublicKey p (e # events) =
     (case e of Cleanup now \<Rightarrow> deletedKeys now p | _ \<Rightarrow> [])
       @ prunedKeys confirms validPublicKey (payoutStep confirms validPublicKey p e) events"

section \<open>The server state and its responses\<close>

text \<open>A callback handed to \<^verbatim>\<open>setTimeout\<close>: removing a game from the registry, or a
  player from \<^verbatim>\<open>activePlayers\<close>.\<close>

datatype timerAction = DeleteSession string | DeleteActivePlayer string

text \<open>The mutable state the endpoints share. \<open>sessions\<close> is the registry, a JavaScript
  Map in insertion order: \<^verbatim>\<open>luckyTripleGames\<close> (keys are gameIds) for the functions with
  suffix \<open>_g\<close>, \<^verbatim>\<open>playerGameSessions\<close> (keys are playerIds) for those with suffix \<open>_p\<close>.
  \<open>timers\<close> lists the callbacks scheduled so far with the time they are due. The set
  \<^verbatim>\<open>activePlayers\<close> is read by the start endpoint only and is left out.\<close>

record server =
  sessions :: "(string \<times> gameState) list"
  completedGames :: "(string \<times> completedGame) list"
  ledger :: payouts
  timers :: "(int \<times> timerAction) list"

datatype message = Congratulations int combination | GameOver combination

text \<open>The body of a successful draw response (\<^verbatim>\<open>heldCards\<close> is always the empty array;
  \<^verbatim>\<open>serverTime\<close> is sent by the playerId-keyed file only).\<close>

record drawBody =
  d_cards :: "card list"
  d_combination :: combination
  d_reward :: int
  d_roundsLeft :: int
  d_remainingCards :: int
  d_isEnded :: bool
  d_timeRemaining :: int
  d_serverTime :: "int option"
  d_previouslyHeld :: "int list"
  d_playerId :: string
  d_rewardPaid :: bool

text \<open>The body of a successful check response (\<^verbatim>\<open>gameCompleted: true\<close>,
  \<^verbatim>\<open>isEnded: true\<close> and \<^verbatim>\<open>timeRemaining: 0\<close> are constants).\<close>

record checkBody =
  c_gameId :: string
  c_playerId :: string
  c_combination :: combination
  c_reward :: int
  c_isWin :: bool
  c_message :: message
  c_rewardPaid :: bool

record statusBody =
  s_gameId :: string
  s_playerId :: string
  s_isEnded :: bool
  s_timedOut :: bool
  s_timeRemaining :: int
  s_serverTime :: "int option"
  s_roundsLeft :: int
  s_currentCombination :: combination
  s_currentReward :: int
  s_rewardPaid :: bool

text \<open>The object \<^verbatim>\<open>handleTimedOutGame\<close> returns (gameId-keyed file). Its constant fields
  are \<^verbatim>\<open>gameCompleted: true, isEnded: true, timedOut: true, timeRemaining: 0\<close> and the
  message; it has no field \<^verbatim>\<open>isTimedOut\<close>.\<close>

record timedOutInfo =
  ti_gameId :: string
  ti_finalCombination :: combination
  ti_reward :: int

text \<open>What \<^verbatim>\<open>verifyTimeRemaining\<close> returns in the gameId-keyed file: the object of
  \<^verbatim>\<open>handleTimedOutGame\<close>, or \<^verbatim>\<open>{ timeRemaining, isTimedOut: false }\<close>.\<close>

datatype timeCheck_g = TimedOutGame timedOutInfo | TimeLeft int

text \<open>Reading \<^verbatim>\<open>timeCheck.isTimedOut\<close>: undefined, hence falsy, on the object of
  \<^verbatim>\<open>handleTimedOutGame\<close>, and false on the other.\<close>

fun isTimedOut_g :: "timeCheck_g \<Rightarrow> bool" where
  "isTimedOut_g (TimedOutGame info) = False"
| "isTimedOut_g (TimeLeft t) = False"

fun timeRemaining_g :: "timeCheck_g \<Rightarrow> int" where
  "timeRemaining_g (TimedOutGame info) = 0"
| "timeRemaining_g (TimeLeft t) = t"

text \<open>What \<^verbatim>\<open>verifyTimeRemaining\<close> returns in the playerId-keyed file.\<close>

record timeCheck_p =
  tc_timeRemaining :: int
  tc_isTimedOut :: bool
  tc_isEnded :: bool
  tc_serverTime :: int

text \<open>The answers of the endpoints. \<open>ErrorResponse code text\<close> is
  \<^verbatim>\<open>res.status(code).json({ error: text })\<close>. \<open>TimedOut_p serverTime\<close> is the status 400
  answer \<^verbatim>\<open>{ error: 'Game has timed out', timeRemaining: 0, isTimedOut: true,
  isEnded: true, serverTime }\<close> of the playerId-keyed file; \<open>TimedOut_g timeCheck\<close> is the
  status 400 answer \<^verbatim>\<open>{ error: 'Game has timed out', ...timeCheck }\<close> of the other.
  \<open>UndefinedCard\<close> stands for a draw that would put \<^verbatim>\<open>undefined\<close> into the new hand (the
  deck or the previous hand has no card at the index read); the model does not follow
  the handler beyond that point. \<open>InternalError\<close> is the status 500 answer Express gives
  when the handler throws.\<close>

datatype response =
    ErrorResponse int string
  | TimedOut_p int
  | TimedOut_g timeCheck_g
  | HoldOk "int list"
  | DrawOk drawBody
  | CheckOk checkBody
  | StatusOk statusBody
  | UndefinedCard
  | InternalError

section \<open>Timeout checks\<close>

text \<open>\<^verbatim>\<open>Math.ceil(timeRemaining / 1000)\<close> on integer milliseconds.\<close>

definition ceilSeconds :: "int \<Rightarrow> int" where
  "ceilSeconds ms = (ms + 999) div 1000"

text \<open>\<^verbatim>\<open>verifyTimeRemaining(gameState, playerId)\<close> of the playerId-keyed file, for a
  game state that is not null (every caller has answered 404 before). \<open>now\<close> is the
  value of \<^verbatim>\<open>Date.now()\<close> during the request. The function mutates the game state and
  \<^verbatim>\<open>completedGames\<close>; the model returns both.\<close>

definition verifyTimeRemaining_p ::
  "int \<Rightarrow> gameState \<Rightarrow> string \<Rightarrow> (string \<times> completedGame) list
     \<Rightarrow> timeCheck_p \<times> gameState \<times> (string \<times> completedGame) list" where
  "verifyTimeRemaining_p now gs pid completed =
     (let elapsed = now - timestamp gs;
          timeRemaining = max 0 (GAME_TIMEOUT_MS - elapsed)
      in if timeRemaining \<le> 0 \<and> \<not> isEnded gs
         then (\<lparr>tc_timeRemaining = 0, tc_isTimedOut = True, tc_isEnded = True,
                 tc_serverTime = now\<rparr>,
               gs\<lparr>isEnded := True, timedOut := True\<rparr>,
               if pid \<noteq> []
               then AList.update (gameId gs)
                      \<lparr>cg_playerId = pid, cg_result = Timeout, cg_timestamp = now,
                       cg_processed = True\<rparr> completed
               else completed)
         else (\<lparr>tc_timeRemaining = ceilSeconds timeRemaining, tc_isTimedOut = False,
                 tc_isEnded = isEnded gs, tc_serverTime = now\<rparr>,
               gs, completed))"

text \<open>\<^verbatim>\<open>handleTimedOutGame\<close> of the gameId-keyed file: it mutates the game state, records
  the timeout and schedules the removal of the player.\<close>

definition handleTimedOutGame ::
  "int \<Rightarrow> gameState \<Rightarrow> server \<Rightarrow> timedOutInfo \<times> gameState \<times> server" where
  "handleTimedOutGame now gs w =
     (\<lparr>ti_gameId = gameId gs, ti_finalCombination = currentCombination gs, ti_reward = 0\<rparr>,
      gs\<lparr>isEnded := True, timedOut := True\<rparr>,
      if playerId gs \<noteq> []
      then w\<lparr>completedGames :=
               AList.update (gameId gs)
                 \<lparr>cg_playerId = playerId gs, cg_result = Timeout, cg_timestamp = now,
                  cg_processed = True\<rparr> (completedGames w),
             timers := timers w @ [(now + 5000, DeleteActivePlayer (playerId gs))]\<rparr>
      else w)"

text \<open>\<^verbatim>\<open>verifyTimeRemaining(gameState)\<close> of the gameId-keyed file.\<close>

definition verifyTimeRemaining_g ::
  "int \<Rightarrow> gameState \<Rightarrow> server \<Rightarrow> timeCheck_g \<times> gameState \<times> server" where
  "verifyTimeRemaining_g now gs w =
     (let elapsed = now - timestamp gs;
          timeRemaining = max 0 (GAME_TIMEOUT_MS - elapsed)
      in if timeRemaining \<le> 0 \<and> \<not> isEnded gs
         then (case handleTimedOutGame now gs w of
                 (info, gs', w') \<Rightarrow> (TimedOutGame info, gs', w'))
         else (TimeLeft (ceilSeconds timeRemaining), gs, w))"

section \<open>Reward dispatch from a handler\<close>

text \<open>The part of \<^verbatim>\<open>processReward(gameState)\<close> that runs inside the handler that calls it
  (the handlers do not await it). The flag is True when \<^verbatim>\<open>sendCardsReward\<close> has returned
  null at once, so that \<^verbatim>\<open>gameState.rewardPaid = true\<close> runs as soon as the handler has
  finished, before any other request.\<close>

definition processReward_begin ::
  "(string \<Rightarrow> bool) \<Rightarrow> gameState \<Rightarrow> payouts \<Rightarrow> bool \<times> payouts" where
  "processReward_begin validPublicKey gs p =
     (if rewardPaid gs then (False, p)
      else if currentReward gs \<le> 0 then (False, p)
      else (case sendCardsReward_start validPublicKey
                   (playerId gs) (gameId gs) (currentReward gs) p of
              (ReturnsNull, p') \<Rightarrow> (True, p')
            | (_, p') \<Rightarrow> (False, p')))"

text \<open>The rest of \<^verbatim>\<open>processReward\<close> when its suspended \<^verbatim>\<open>sendCardsReward\<close> (the \<open>n\<close>-th
  in flight) resumes: unless the call throws, the game state object is marked paid. The
  object is the one whose gameId and playerId the call was made with; gameIds are unique,
  so it is found in the registry by them if it is still there.\<close>

definition processReward_resume :: "bool \<Rightarrow> nat \<Rightarrow> chainReply \<Rightarrow> server \<Rightarrow> server" where
  "processReward_resume confirms n reply w =
     (if n < length (inFlight (ledger w))
      then (case inFlight (ledger w) ! n of (receiverAddress, gid, rewardAmount) \<Rightarrow>
             (case (if confirms then sendCardsReward_finish_g else sendCardsReward_finish_p)
                     reply (receiverAddress, gid, rewardAmount)
                     ((ledger w)\<lparr>inFlight := dropCall n (inFlight (ledger w))\<rparr>) of
                (result, p') \<Rightarrow>
                  w\<lparr>ledger := p',
                    sessions :=
                      (if result = Rejects then sessions w
                       else map (\<lambda>(k, gs).
                                   if gameId gs = gid \<and> playerId gs = receiverAddress
                                   then (k, gs\<lparr>rewardPaid := True\<rparr>) else (k, gs))
                                (sessions w))\<rparr>))
      else w)"

section \<open>Looking a game up\<close>

text \<open>\<^verbatim>\<open>luckyTripleGames.get(gameId)\<close>\<close>

definition findGame_g :: "string \<Rightarrow> server \<Rightarrow> gameState option" where
  "findGame_g gid w = map_of (sessions w) gid"

text \<open>The scan \<^verbatim>\<open>for (const [pid, state] of playerGameSessions.entries())\<close> that stops at
  the first state whose gameId is the one asked for.\<close>

definition findGame_p :: "string \<Rightarrow> server \<Rightarrow> (string \<times> gameState) option" where
  "findGame_p gid w = find (\<lambda>(pid, state). gameId state = gid) (sessions w)"

section \<open>The hold endpoint\<close>

text \<open>\<^verbatim>\<open>POST /lucky-triple/hold\<close> of the gameId-keyed file.\<close>

definition hold_g :: "string \<Rightarrow> int list \<Rightarrow> server \<Rightarrow> response \<times> server" where
  "hold_g gid cardIndexes w =
     (case findGame_g gid w of
        None \<Rightarrow> (ErrorResponse 404 ''Game not found'', w)
      | Some gameState \<Rightarrow>
          if length cardIndexes > 2
            then (ErrorResponse 400 ''Cannot hold more than 2 cards'', w)
          else if roundsPlayed gameState = 0 \<or> roundsPlayed gameState \<ge> 3
            then (ErrorResponse 400 ''Can only hold cards after first and second round'', w)
          else (HoldOk cardIndexes,
                w\<lparr>sessions :=
                    AList.update gid (gameState\<lparr>heldCards := cardIndexes\<rparr>) (sessions w)\<rparr>))"

text \<open>\<^verbatim>\<open>POST /lucky-triple/hold\<close> of the playerId-keyed file.\<close>

definition hold_p :: "int \<Rightarrow> string \<Rightarrow> int list \<Rightarrow> server \<Rightarrow> response \<times> server" where
  "hold_p now gid cardIndexes w =
     (case findGame_p gid w of
        None \<Rightarrow> (ErrorResponse 404 ''Game not found'', w)
      | Some (pid, gameState) \<Rightarrow>
          if length cardIndexes > 2
            then (ErrorResponse 400 ''Cannot hold more than 2 cards'', w)
          else if roundsPlayed gameState = 0 \<or> roundsPlayed gameState \<ge> 3
            then (ErrorResponse 400 ''Can only hold cards after first and second round'', w)
          else (HoldOk cardIndexes,
                w\<lparr>sessions :=
                    AList.update pid
                      (gameState\<lparr>heldCards := cardIndexes, lastActionTime := now\<rparr>)
                      (sessions w)\<rparr>))"

section \<open>The draw endpoint\<close>

text \<open>\<^verbatim>\<open>deck.pop()\<close>: the last card leaves the array; on an empty array the result is
  undefined.\<close>

fun popCard :: "card list \<Rightarrow> card option \<times> card list" where
  "popCard [] = (None, [])"
| "popCard (c # d) = (Some (last (c # d)), butlast (c # d))"

text \<open>First round: \<^verbatim>\<open>for (let i = 0; i < 3; i++) newCards[i] = gameState.deck.pop()\<close>.\<close>

fun drawAllNew :: "nat \<Rightarrow> card list \<Rightarrow> card option list \<times> card list" where
  "drawAllNew 0 d = ([], d)"
| "drawAllNew (Suc n) d =
     (case popCard d of (c, d') \<Rightarrow>
        (case drawAllNew n d' of (rest, d'') \<Rightarrow> (c # rest, d'')))"

text \<open>Later rounds, over the indices 0, 1, 2 in turn: a held index keeps
  \<^verbatim>\<open>previousCards[i]\<close> (undefined if the previous hand is shorter), any other index pops
  the deck.\<close>

fun drawKeepingHeld ::
  "int list \<Rightarrow> card list \<Rightarrow> nat list \<Rightarrow> card list \<Rightarrow> card option list \<times> card list" where
  "drawKeepingHeld currentHeldCards previousCards [] d = ([], d)"
| "drawKeepingHeld currentHeldCards previousCards (i # is) d =
     (if int i \<in> set currentHeldCards
      then (case drawKeepingHeld currentHeldCards previousCards is d of (rest, d') \<Rightarrow>
              ((if i < length previousCards then Some (previousCards ! i) else None) # rest,
               d'))
      else (case popCard d of (c, d') \<Rightarrow>
              (case drawKeepingHeld currentHeldCards previousCards is d' of (rest, d'') \<Rightarrow>
                 (c # rest, d''))))"

text \<open>The part of the draw handler both files share word for word: a deck with fewer
  than 3 cards is replaced by a new shuffled one, then the new hand is built. The result
  is the new hand and the deck left.\<close>

definition dealNewCards ::
  "(nat \<Rightarrow> nat) \<Rightarrow> gameState \<Rightarrow> card option list \<times> card list" where
  "dealNewCards rnd gameState =
     (let d = (if length (deck gameState) < 3 then createAndShuffleLuckyTripleDeck rnd
               else deck gameState)
      in if roundsPlayed gameState = 0 then drawAllNew 3 d
         else drawKeepingHeld (heldCards gameState) (cards gameState) [0, 1, 2] d)"

text \<open>The block \<^verbatim>\<open>if (gameState.roundsPlayed >= gameState.maxRounds)\<close> after a draw, in
  the playerId-keyed file. The flag is the one of \<open>processReward_begin\<close>.\<close>

definition lastRound_p ::
  "(string \<Rightarrow> bool) \<Rightarrow> int \<Rightarrow> string \<Rightarrow> gameState \<Rightarrow> server \<Rightarrow> gameState \<times> server \<times> bool" where
  "lastRound_p validPublicKey now pid gs w =
     (if roundsPlayed gs \<ge> maxRounds gs
      then (let gs' = gs\<lparr>isEnded := True\<rparr>
            in if currentReward gs' > 0
               then (case processReward_begin validPublicKey gs' (ledger w) of
                       (marksPaid, p') \<Rightarrow>
                         (gs',
                          w\<lparr>completedGames :=
                               AList.update (gameId gs')
                                 \<lparr>cg_playerId = pid, cg_result = Win, cg_timestamp = now,
                                  cg_processed = False\<rparr> (completedGames w),
                            ledger := p'\<rparr>,
                          marksPaid))
               else (gs',
                     w\<lparr>completedGames :=
                          AList.update (gameId gs')
                            \<lparr>cg_playerId = pid, cg_result = Loss, cg_timestamp = now,
                             cg_processed = True\<rparr> (completedGames w),
                       timers := timers w @ [(now + 5000, DeleteSession pid)]\<rparr>,
                     False))
      else (gs, w, False))"

text \<open>The same block in the gameId-keyed file, where the bookkeeping is guarded by
  \<^verbatim>\<open>gameState.playerId\<close>.\<close>

definition lastRound_g ::
  "(string \<Rightarrow> bool) \<Rightarrow> int \<Rightarrow> string \<Rightarrow> gameState \<Rightarrow> server \<Rightarrow> gameState \<times> server \<times> bool" where
  "lastRound_g validPublicKey now gid gs w =
     (if roundsPlayed gs \<ge> maxRounds gs
      then (let gs' = gs\<lparr>isEnded := True\<rparr>
            in if currentReward gs' > 0 \<and> playerId gs' \<noteq> []
               then (case processReward_begin validPublicKey gs' (ledger w) of
                       (marksPaid, p') \<Rightarrow>
                         (gs',
                          w\<lparr>completedGames :=
                               AList.update gid
                                 \<lparr>cg_playerId = playerId gs', cg_result = Win,
                                  cg_timestamp = now, cg_processed = False\<rparr>
                                 (completedGames w),
                            ledger := p'\<rparr>,
                          marksPaid))
               else if playerId gs' \<noteq> []
               then (gs',
                     w\<lparr>completedGames :=
                          AList.update gid
                            \<lparr>cg_playerId = playerId gs', cg_result = Loss,
                             cg_timestamp = now, cg_processed = True\<rparr> (completedGames w),
                       timers := timers w @ [(now + 5000, DeleteActivePlayer (playerId gs'))]\<rparr>,
                     False)
               else (gs', w, False))
      else (gs, w, False))"

text \<open>The log line of the draw handler, in both files: once a second round or a later
  one has been played and some position was held,
  \<^verbatim>\<open>currentHeldCards.map(i => formatCardForLog(previousCards[i]))\<close> reads the rank of
  the previous card at every held index, and throws a TypeError when the previous hand
  has no card there.\<close>

definition heldLogThrows :: "gameState \<Rightarrow> int list \<Rightarrow> card list \<Rightarrow> bool" where
  "heldLogThrows gs currentHeldCards previousCards =
     (roundsPlayed gs > 1 \<and> currentHeldCards \<noteq> []
      \<and> list_ex (\<lambda>i. \<not> (0 \<le> i \<and> i < int (length previousCards))) currentHeldCards)"

text \<open>The draw handler of the playerId-keyed file from the point where the new cards
  are dealt. The new state is stored and the reward dispatched before the log lines are
  written; when the log line throws, the answer is the status 500 and the remaining time
  is not computed. The response reads \<^verbatim>\<open>gameState.rewardPaid\<close> before the continuation
  of \<^verbatim>\<open>processReward\<close> can run.\<close>

definition dealAndRespond_p ::
  "(string \<Rightarrow> bool) \<Rightarrow> (nat \<Rightarrow> nat) \<Rightarrow> int \<Rightarrow> string \<Rightarrow> gameState \<Rightarrow> timeCheck_p \<Rightarrow> server
     \<Rightarrow> response \<times> server" where
  "dealAndRespond_p validPublicKey rnd now pid gameState timeCheck w =
     (case dealNewCards rnd gameState of (newCards, d) \<Rightarrow>
        if None \<in> set newCards
        then (UndefinedCard,
              w\<lparr>sessions := AList.update pid (gameState\<lparr>deck := d\<rparr>) (sessions w)\<rparr>)
        else
          (let hand = map the newCards;
               handResult = evaluateHandCombination hand;
               gs = gameState\<lparr>deck := d, cards := hand,
                      currentCombination := combination handResult,
                      currentReward := reward handResult,
                      roundsPlayed := roundsPlayed gameState + 1,
                      lastActionTime := now, heldCards := []\<rparr>
           in case lastRound_p validPublicKey now pid gs w of (gs1, w1, marksPaid) \<Rightarrow>
                if heldLogThrows gs1 (heldCards gameState) (cards gameState)
                then (InternalError,
                      w1\<lparr>sessions :=
                           AList.update pid
                             (gs1\<lparr>rewardPaid := (if marksPaid then True else rewardPaid gs1)\<rparr>)
                             (sessions w1)\<rparr>)
                else
                (case (if isEnded gs1 then (0, gs1, completedGames w1)
                       else (case verifyTimeRemaining_p now gs1 pid (completedGames w1) of
                               (timeStatus, gs2, completed2) \<Rightarrow>
                                 (tc_timeRemaining timeStatus, gs2, completed2))) of
                   (remainingTime, gs2, completed2) \<Rightarrow>
                     (DrawOk \<lparr>d_cards = hand, d_combination = combination handResult,
                              d_reward = reward handResult,
                              d_roundsLeft = maxRounds gs2 - roundsPlayed gs2,
                              d_remainingCards = int (length (deck gs2)),
                              d_isEnded = isEnded gs2, d_timeRemaining = remainingTime,
                              d_serverTime = Some (tc_serverTime timeCheck),
                              d_previouslyHeld = heldCards gameState,
                              d_playerId = pid, d_rewardPaid = rewardPaid gs2\<rparr>,
                      w1\<lparr>sessions :=
                           AList.update pid
                             (gs2\<lparr>rewardPaid := (if marksPaid then True else rewardPaid gs2)\<rparr>)
                             (sessions w1),
                         completedGames := completed2\<rparr>))))"

text \<open>\<^verbatim>\<open>POST /lucky-triple/draw\<close> of the playerId-keyed file.\<close>

definition draw_p ::
  "(string \<Rightarrow> bool) \<Rightarrow> (nat \<Rightarrow> nat) \<Rightarrow> int \<Rightarrow> string \<Rightarrow> server \<Rightarrow> response \<times> server" where
  "draw_p validPublicKey rnd now gid w =
     (case findGame_p gid w of
        None \<Rightarrow> (ErrorResponse 404 ''Game not found'', w)
      | Some (pid, gameState) \<Rightarrow>
          if isEnded gameState then (ErrorResponse 400 ''Game has already ended'', w)
          else
            (case verifyTimeRemaining_p now gameState pid (completedGames w) of
               (timeCheck, gs1, completed1) \<Rightarrow>
                 if tc_isTimedOut timeCheck
                 then (TimedOut_p (tc_serverTime timeCheck),
                       w\<lparr>sessions := AList.delete pid (sessions w),
                         completedGames := completed1\<rparr>)
                 else if roundsPlayed gs1 \<ge> maxRounds gs1
                 then (ErrorResponse 400 ''Maximum rounds reached for this game'',
                       w\<lparr>sessions :=
                           AList.update pid (gs1\<lparr>isEnded := True, lastActionTime := now\<rparr>)
                             (sessions w),
                         completedGames := completed1\<rparr>)
                 else dealAndRespond_p validPublicKey rnd now pid gs1 timeCheck
                        (w\<lparr>completedGames := completed1\<rparr>)))"

text \<open>The draw handler of the gameId-keyed file from the point where the new cards are
  dealt, with the same log line.\<close>

definition dealAndRespond_g ::
  "(string \<Rightarrow> bool) \<Rightarrow> (nat \<Rightarrow> nat) \<Rightarrow> int \<Rightarrow> string \<Rightarrow> gameState \<Rightarrow> server
     \<Rightarrow> response \<times> server" where
  "dealAndRespond_g validPublicKey rnd now gid gameState w =
     (case dealNewCards rnd gameState of (newCards, d) \<Rightarrow>
        if None \<in> set newCards
        then (UndefinedCard,
              w\<lparr>sessions := AList.update gid (gameState\<lparr>deck := d\<rparr>) (sessions w)\<rparr>)
        else
          (let hand = map the newCards;
               handResult = evaluateHandCombination hand;
               gs = gameState\<lparr>deck := d, cards := hand,
                      currentCombination := combination handResult,
                      currentReward := reward handResult,
                      roundsPlayed := roundsPlayed gameState + 1,
                      heldCards := []\<rparr>
           in case lastRound_g validPublicKey now gid gs w of (gs1, w1, marksPaid) \<Rightarrow>
                if heldLogThrows gs1 (heldCards gameState) (cards gameState)
                then (InternalError,
                      w1\<lparr>sessions :=
                           AList.update gid
                             (gs1\<lparr>rewardPaid := (if marksPaid then True else rewardPaid gs1)\<rparr>)
                             (sessions w1)\<rparr>)
                else
                (case (if isEnded gs1 then (0, gs1, w1)
                       else (case verifyTimeRemaining_g now gs1 w1 of
                               (timeStatus, gs2, w2) \<Rightarrow>
                                 (timeRemaining_g timeStatus, gs2, w2))) of
                   (remainingTime, gs2, w2) \<Rightarrow>
                     (DrawOk \<lparr>d_cards = hand, d_combination = combination handResult,
                              d_reward = reward handResult,
                              d_roundsLeft = maxRounds gs2 - roundsPlayed gs2,
                              d_remainingCards = int (length (deck gs2)),
                              d_isEnded = isEnded gs2, d_timeRemaining = remainingTime,
                              d_serverTime = None,
                              d_previouslyHeld = heldCards gameState,
                              d_playerId = playerId gs2, d_rewardPaid = rewardPaid gs2\<rparr>,
                      w2\<lparr>sessions :=
                           AList.update gid
                             (gs2\<lparr>rewardPaid := (if marksPaid then True else rewardPaid gs2)\<rparr>)
                             (sessions w2)\<rparr>))))"

text \<open>\<^verbatim>\<open>POST /lucky-triple/draw\<close> of the gameId-keyed file. The game state is mutated in
  place by \<^verbatim>\<open>verifyTimeRemaining\<close>, which the model writes back under the same key.\<close>

definition draw_g ::
  "(string \<Rightarrow> bool) \<Rightarrow> (nat \<Rightarrow> nat) \<Rightarrow> int \<Rightarrow> string \<Rightarrow> server \<Rightarrow> response \<times> server" where
  "draw_g validPublicKey rnd now gid w =
     (case findGame_g gid w of
        None \<Rightarrow> (ErrorResponse 404 ''Game not found'', w)
      | Some gameState \<Rightarrow>
          if isEnded gameState then (ErrorResponse 400 ''Game has already ended'', w)
          else
            (case verifyTimeRemaining_g now gameState w of
               (timeCheck, gs1, w1) \<Rightarrow>
                 if isTimedOut_g timeCheck
                 then (TimedOut_g timeCheck,
                       w1\<lparr>sessions := AList.delete gid (sessions w1)\<rparr>)
                 else if roundsPlayed gs1 \<ge> maxRounds gs1
                 then (ErrorResponse 400 ''Maximum rounds reached for this game'',
                       w1\<lparr>sessions :=
                            AList.update gid (gs1\<lparr>isEnded := True\<rparr>) (sessions w1)\<rparr>)
                 else dealAndRespond_g validPublicKey rnd now gid gs1 w1))"

section \<open>The check endpoint\<close>

text \<open>\<^verbatim>\<open>POST /lucky-triple/check\<close> of the playerId-keyed file. Two removals of the
  session are scheduled, 5 and 10 seconds ahead.\<close>

definition check_p ::
  "(string \<Rightarrow> bool) \<Rightarrow> int \<Rightarrow> string \<Rightarrow> server \<Rightarrow> response \<times> server" where
  "check_p validPublicKey now gid w =
     (case findGame_p gid w of
        None \<Rightarrow> (ErrorResponse 404 ''Game not found'', w)
      | Some (pid, gameState) \<Rightarrow>
          (case verifyTimeRemaining_p now gameState pid (completedGames w) of
             (timeCheck, gs1, completed1) \<Rightarrow>
               if tc_isTimedOut timeCheck
               then (TimedOut_p (tc_serverTime timeCheck),
                     w\<lparr>sessions := AList.delete pid (sessions w),
                       completedGames := completed1\<rparr>)
               else
                 (let gs = gs1\<lparr>isEnded := True, lastActionTime := now\<rparr>;
                      completed2 =
                        AList.update (gameId gs)
                          \<lparr>cg_playerId = pid,
                           cg_result = (if currentReward gs > 0 then Win else Loss),
                           cg_timestamp = now, cg_processed = False\<rparr> completed1
                  in case (if currentReward gs > 0
                           then processReward_begin validPublicKey gs (ledger w)
                           else (False, ledger w)) of
                       (marksPaid, p') \<Rightarrow>
                         (CheckOk \<lparr>c_gameId = gameId gs, c_playerId = pid,
                                   c_combination = currentCombination gs,
                                   c_reward = currentReward gs,
                                   c_isWin = (currentReward gs > 0),
                                   c_message =
                                     (if currentReward gs > 0
                                      then Congratulations (currentReward gs)
                                             (currentCombination gs)
                                      else GameOver (currentCombination gs)),
                                   c_rewardPaid = rewardPaid gs\<rparr>,
                          w\<lparr>sessions :=
                              AList.update pid
                                (gs\<lparr>rewardPaid := (if marksPaid then True else rewardPaid gs)\<rparr>)
                                (sessions w),
                            completedGames := completed2,
                            ledger := p',
                            timers := timers w @ [(now + 5000, DeleteSession pid),
                                                   (now + 10000, DeleteSession pid)]\<rparr>))))"


section \<open>The status endpoint\<close>

text \<open>\<^verbatim>\<open>GET /lucky-triple/status/:gameId\<close> of the playerId-keyed file.\<close>

definition status_p :: "int \<Rightarrow> string \<Rightarrow> server \<Rightarrow> response \<times> server" where
  "status_p now gid w =
     (case findGame_p gid w of
        None \<Rightarrow> (ErrorResponse 404 ''Game not found'', w)
      | Some (pid, gameState) \<Rightarrow>
          (case verifyTimeRemaining_p now gameState pid (completedGames w) of
             (timeCheck, gs1, completed1) \<Rightarrow>
               if tc_isTimedOut timeCheck
               then (TimedOut_p (tc_serverTime timeCheck),
                     w\<lparr>sessions := AList.delete pid (sessions w),
                       completedGames := completed1\<rparr>)
               else (StatusOk \<lparr>s_gameId = gameId gs1, s_playerId = pid,
                               s_isEnded = (isEnded gs1 \<or> tc_isEnded timeCheck),
                               s_timedOut = (timedOut gs1 \<or> tc_isTimedOut timeCheck),
                               s_timeRemaining = tc_timeRemaining timeCheck,
                               s_serverTime = Some (tc_serverTime timeCheck),
                               s_roundsLeft = maxRounds gs1 - roundsPlayed gs1,
                               s_currentCombination = currentCombination gs1,
                               s_currentReward = currentReward gs1,
                               s_rewardPaid = rewardPaid gs1\<rparr>,
                     w\<lparr>completedGames := completed1\<rparr>)))"

text \<open>\<^verbatim>\<open>GET /lucky-triple/status/:gameId\<close> of the gameId-keyed file. The game state
  mutated by \<^verbatim>\<open>verifyTimeRemaining\<close> is written back under its key; an ended game is
  scheduled for removal at once.\<close>

definition status_g :: "int \<Rightarrow> string \<Rightarrow> server \<Rightarrow> response \<times> server" where
  "status_g now gid w =
     (case findGame_g gid w of
        None \<Rightarrow> (ErrorResponse 404 ''Game not found'', w)
      | Some gameState \<Rightarrow>
          (case verifyTimeRemaining_g now gameState w of
             (timeCheck, gs1, w1) \<Rightarrow>
               if isTimedOut_g timeCheck
               then (ErrorResponse 404 ''Game has timed out'',
                     w1\<lparr>sessions := AList.delete gid (sessions w1)\<rparr>)
               else (StatusOk \<lparr>s_gameId = gameId gs1, s_playerId = playerId gs1,
                               s_isEnded = isEnded gs1, s_timedOut = timedOut gs1,
                               s_timeRemaining = timeRemaining_g timeCheck,
                               s_serverTime = None,
                               s_roundsLeft = maxRounds gs1 - roundsPlayed gs1,
                               s_currentCombination = currentCombination gs1,
                               s_currentReward = currentReward gs1,
                               s_rewardPaid = rewardPaid gs1\<rparr>,
                     w1\<lparr>sessions := AList.update gid gs1 (sessions w1),
                        timers := (if isEnded gs1
                                   then timers w1 @ [(now, DeleteSession gid)]
                                   else timers w1)\<rparr>)))"

section \<open>Example states\<close>

text \<open>A random source that never moves a card: \<open>rnd i mod (i + 1) = i\<close>, so every swap
  of the shuffle exchanges a cell with itself.\<close>

definition noSwap :: "nat \<Rightarrow> nat" where
  "noSwap i = i"

text \<open>The game of player Alice after start at time 0 and a first draw at time 1000 from
  the deck \<open>createAndShuffleLuckyTripleDeck noSwap\<close>: the three cards popped are the 6, 5
  and 4 of spades, a Straight Flush.\<close>

definition gameAfterFirstDraw :: gameState where
  "gameAfterFirstDraw =
     \<lparr>gameId = ''g1'', playerId = ''Alice'', deck = take 21 unshuffledDeck,
      cards = [\<lparr>suit = Spades, rank = Six, hidden = False\<rparr>,
               \<lparr>suit = Spades, rank = Five, hidden = False\<rparr>,
               \<lparr>suit = Spades, rank = Four, hidden = False\<rparr>],
      heldCards = [], timestamp = 0, lastActionTime = 1000,
      currentCombination = StraightFlush, currentReward = 12, roundsPlayed = 1,
      maxRounds = 3, isEnded = False, timedOut = False, rewardPaid = False\<rparr>"

text \<open>The server holding that game and nothing else, before and after the first draw,
  in the playerId-keyed file and in the gameId-keyed file (which does not touch
  \<open>lastActionTime\<close>).\<close>

definition started_p :: server where
  "started_p =
     \<lparr>sessions = [(''Alice'', newGameState ''g1'' ''Alice'' unshuffledDeck 0)],
      completedGames = [], ledger = noPayouts, timers = []\<rparr>"

definition started_g :: server where
  "started_g =
     \<lparr>sessions = [(''g1'', newGameState ''g1'' ''Alice'' unshuffledDeck 0)],
      completedGames = [], ledger = noPayouts, timers = []\<rparr>"

definition afterFirstDraw_p :: server where
  "afterFirstDraw_p =
     \<lparr>sessions = [(''Alice'', gameAfterFirstDraw)],
      completedGames = [], ledger = noPayouts, timers = []\<rparr>"

definition afterFirstDraw_g :: server where
  "afterFirstDraw_g =
     \<lparr>sessions = [(''g1'', gameAfterFirstDraw\<lparr>lastActionTime := 0\<rparr>)],
      completedGames = [], ledger = noPayouts, timers = []\<rparr>"

text \<open>The same servers after two more draws, at times 2000 and 3000, with nothing held:
  the game has played its three rounds.\<close>

definition afterThreeDraws_p :: server where
  "afterThreeDraws_p =
     snd (draw_p (\<lambda>a. True) noSwap 3000 ''g1''
            (snd (draw_p (\<lambda>a. True) noSwap 2000 ''g1'' afterFirstDraw_p)))"

definition afterThreeDraws_g :: server where
  "afterThreeDraws_g =
     snd (draw_g (\<lambda>a. True) noSwap 3000 ''g1''
            (snd (draw_g (\<lambda>a. True) noSwap 2000 ''g1'' afterFirstDraw_g)))"

text \<open>The game those servers hold: the last hand is the 6, 5 and 4 of clubs.\<close>

definition gameAfterThreeDraws :: gameState where
  "gameAfterThreeDraws =
     \<lparr>gameId = ''g1'', playerId = ''Alice'', deck = take 15 unshuffledDeck,
      cards = [\<lparr>suit = Clubs, rank = Six, hidden = False\<rparr>,
               \<lparr>suit = Clubs, rank = Five, hidden = False\<rparr>,
               \<lparr>suit = Clubs, rank = Four, hidden = False\<rparr>],
      heldCards = [], timestamp = 0, lastActionTime = 3000,
      currentCombination = StraightFlush, currentReward = 12, roundsPlayed = 3,
      maxRounds = 3, isEnded = True, timedOut = False, rewardPaid = False\<rparr>"

text \<open>The servers after the first draw and a hold of the positions 0 and 1 at time
  1500.\<close>

definition afterHold_p :: server where
  "afterHold_p =
     afterFirstDraw_p
       \<lparr>sessions :=
          [(''Alice'', gameAfterFirstDraw\<lparr>heldCards := [0, 1], lastActionTime := 1500\<rparr>)]\<rparr>"

definition afterHold_g :: server where
  "afterHold_g =
     afterFirstDraw_g
       \<lparr>sessions :=
          [(''g1'', gameAfterFirstDraw\<lparr>heldCards := [0, 1], lastActionTime := 0\<rparr>)]\<rparr>"

text \<open>The answer to the draw that follows at time 2000 (playerId-keyed file): the 6 and
  5 of spades stay, the 3 of spades is new, a Flush.\<close>

definition secondDrawBody_p :: drawBody where
  "secondDrawBody_p =
     \<lparr>d_cards = [\<lparr>suit = Spades, rank = Six, hidden = False\<rparr>,
                 \<lparr>suit = Spades, rank = Five, hidden = False\<rparr>,
                 \<lparr>suit = Spades, rank = Three, hidden = False\<rparr>],
      d_combination = Flush, d_reward = 5, d_roundsLeft = 1, d_remainingCards = 20,
      d_isEnded = False, d_timeRemaining = 58, d_serverTime = Some 2000,
      d_previouslyHeld = [0, 1], d_playerId = ''Alice'', d_rewardPaid = False\<rparr>"

text \<open>The game held, and the game stored after that draw.\<close>

definition gameAfterHold :: gameState where
  "gameAfterHold = gameAfterFirstDraw\<lparr>heldCards := [0, 1], lastActionTime := 1500\<rparr>"

definition gameAfterSecondDraw :: gameState where
  "gameAfterSecondDraw =
     \<lparr>gameId = ''g1'', playerId = ''Alice'', deck = take 20 unshuffledDeck,
      cards = [\<lparr>suit = Spades, rank = Six, hidden = False\<rparr>,
               \<lparr>suit = Spades, rank = Five, hidden = False\<rparr>,
               \<lparr>suit = Spades, rank = Three, hidden = False\<rparr>],
      heldCards = [], timestamp = 0, lastActionTime = 2000,
      currentCombination = Flush, currentReward = 5, roundsPlayed = 2,
      maxRounds = 3, isEnded = False, timedOut = False, rewardPaid = False\<rparr>"

text \<open>The game as start stores it, and the answer to its first draw at time 1000
  (playerId-keyed file).\<close>

definition gameAtStart :: gameState where
  "gameAtStart = newGameState ''g1'' ''Alice'' unshuffledDeck 0"

definition firstDrawBody_p :: drawBody where
  "firstDrawBody_p =
     \<lparr>d_cards = [\<lparr>suit = Spades, rank = Six, hidden = False\<rparr>,
                 \<lparr>suit = Spades, rank = Five, hidden = False\<rparr>,
                 \<lparr>suit = Spades, rank = Four, hidden = False\<rparr>],
      d_combination = StraightFlush, d_reward = 12, d_roundsLeft = 2, d_remainingCards = 21,
      d_isEnded = False, d_timeRemaining = 59, d_serverTime = Some 1000,
      d_previouslyHeld = [], d_playerId = ''Alice'', d_rewardPaid = False\<rparr>"

text \<open>Every address is a valid public key. The examples write \<open>''Alice''\<close> for the
  address of the player; the start endpoint only creates a game for an address that
  \<^verbatim>\<open>new PublicKey\<close> accepts.\<close>

definition anyAddress :: "string \<Rightarrow> bool" where
  "anyAddress a = True"

section \<open>Notions used in the proofs\<close>

text \<open>Adjacent gaps of exactly 1 in a list of rank values: \<open>isStraight\<close> read on the
  values alone.\<close>

definition gaps_one :: "int list \<Rightarrow> bool" where
  "gaps_one ks = list_all (\<lambda>i. i = 0 \<or> ks ! i - ks ! (i - 1) = 1) [0..<length ks]"

text \<open>The server after a request of the playerId-keyed file has found the game of
  \<open>pid\<close> expired: the game is gone from the registry and its timeout is recorded (under
  a playerId that is not empty).\<close>

definition expired_p :: "int \<Rightarrow> string \<Rightarrow> gameState \<Rightarrow> server \<Rightarrow> server" where
  "expired_p now pid gs w =
     w\<lparr>sessions := AList.delete pid (sessions w),
       completedGames :=
         (if pid \<noteq> []
          then AList.update (gameId gs)
                 \<lparr>cg_playerId = pid, cg_result = Timeout, cg_timestamp = now,
                  cg_processed = True\<rparr> (completedGames w)
          else completedGames w)\<rparr>"

text \<open>The deck a draw deals from: the game's deck, or a new one when fewer than 3
  cards are left.\<close>

definition dealingDeck :: "(nat \<Rightarrow> nat) \<Rightarrow> gameState \<Rightarrow> card list" where
  "dealingDeck rnd gs =
     (if length (deck gs) < 3 then createAndShuffleLuckyTripleDeck rnd else deck gs)"

text \<open>The positions of the hand a draw fills from the deck: all three in the first
  round, the ones not held afterwards.\<close>

definition freshPositions :: "gameState \<Rightarrow> nat list" where
  "freshPositions gs =
     filter (\<lambda>i. roundsPlayed gs = 0 \<or> int i \<notin> set (heldCards gs)) [0, 1, 2]"

text \<open>The cards of the new hand at those positions, in the order of the positions.\<close>

definition freshCards :: "gameState \<Rightarrow> gameState \<Rightarrow> card list" where
  "freshCards before after = map (\<lambda>i. cards after ! i) (freshPositions before)"

text \<open>How many calls in a list carry a given ledger key.\<close>

definition keyCount :: "string \<Rightarrow> (string \<times> string \<times> int) list \<Rightarrow> nat" where
  "keyCount k xs = length (filter (\<lambda>(r, g, a). transactionKey r g = k) xs)"

text \<open>The invariant of the ledger, for a list of the keys deleted so far: for every key,
  the submissions logged and the calls in flight number together at most one for the
  entry the ledger has, and one more for every deletion of the key; and a call in flight
  whose key was never deleted has its entry pending.\<close>

definition ledgerGuards :: "payouts \<Rightarrow> string list \<Rightarrow> bool" where
  "ledgerGuards p deleted =
     (\<forall>k. keyCount k (submitted p) + keyCount k (inFlight p)
            \<le> (if map_of (paidRewards p) k = None then 0 else 1) + count_list deleted k
          \<and> (0 < keyCount k (inFlight p) \<and> k \<notin> set deleted
               \<longrightarrow> map_of (paidRewards p) k = Some Pending))"

section \<open>Facts about the hand evaluator\<close>

lemma sameRank3: "sameRank [a,b,c] = (rank a = rank b \<and> rank b = rank c)"
  by (auto simp: sameRank_def)
lemma sameSuit3: "sameSuit [a,b,c] = (suit a = suit b \<and> suit b = suit c)"
  by (auto simp: sameSuit_def)

lemma map_sort_key: "map f (sort_key f xs) = sort (map f xs)"
  by (rule sym, rule properties_for_sort) simp_all

lemma isStraight_keys: "isStraight s = gaps_one (map (\<lambda>c. RANK_ORDER (rank c)) s)"
  by (auto simp: isStraight_def gaps_one_def list_all_iff)

lemma gaps_one3: "gaps_one [x, y, z] = (y - x = 1 \<and> z - y = 1)"
  by (simp add: gaps_one_def upt_rec)

lemma three_elements: "length xs = 3 \<Longrightarrow> \<exists>x y z. xs = [x, y, z]"
  by (auto simp: numeral_3_eq_3 length_Suc_conv)

lemma isStraight_spec:
  "isStraight (sortedCards [a, b, c]) = spec_consecutive a b c"
proof -
  let ?ks = "sort [RANK_ORDER (rank a), RANK_ORDER (rank b), RANK_ORDER (rank c)]"
  have "length ?ks = 3" by simp
  then obtain x y z where k: "?ks = [x, y, z]"
    using three_elements by blast
  have "map (\<lambda>c. RANK_ORDER (rank c)) (sortedCards [a, b, c]) = ?ks"
    unfolding sortedCards_def map_sort_key by simp
  then have "isStraight (sortedCards [a, b, c]) = gaps_one ?ks"
    by (simp only: isStraight_keys)
  also have "\<dots> = (y - x = 1 \<and> z - y = 1)" by (simp only: k gaps_one3)
  also have "\<dots> = spec_consecutive a b c" by (simp only: spec_consecutive_def k list.case)
  finally show ?thesis .
qed

lemma same_rank_not_consecutive:
  "spec_same_rank a b c \<Longrightarrow> \<not> spec_consecutive a b c"
  by (simp add: spec_same_rank_def spec_consecutive_def)

lemma REWARDS_order:
  "REWARDS LuckyTriple = 15 \<and> REWARDS StraightFlush = 12 \<and> REWARDS Triple = 9 \<and>
   REWARDS Straight = 6 \<and> REWARDS Flush = 5 \<and> REWARDS NoneCombination = 0 \<and>
   REWARDS LuckyTriple > REWARDS StraightFlush \<and> REWARDS StraightFlush > REWARDS Triple \<and>
   REWARDS Triple > REWARDS Straight \<and> REWARDS Straight > REWARDS Flush \<and>
   REWARDS Flush > REWARDS NoneCombination"
  by simp

lemma evaluate3:
  "evaluateHandCombination [a, b, c] =
     (if spec_same_rank a b c \<and> spec_same_suit a b c
        then \<lparr>combination = LuckyTriple, reward = 15\<rparr>
      else if spec_same_rank a b c then \<lparr>combination = Triple, reward = 9\<rparr>
      else if spec_consecutive a b c \<and> spec_same_suit a b c
        then \<lparr>combination = StraightFlush, reward = 12\<rparr>
      else if spec_consecutive a b c then \<lparr>combination = Straight, reward = 6\<rparr>
      else if spec_same_suit a b c then \<lparr>combination = Flush, reward = 5\<rparr>
      else \<lparr>combination = NoneCombination, reward = 0\<rparr>)"
  unfolding evaluateHandCombination_def isStraight_spec sameRank3 sameSuit3
    spec_same_rank_def spec_same_suit_def
  by simp

lemma rule_iff: "spec_rule L a b c = (combination (evaluateHandCombination [a, b, c]) = L)"
  using same_rank_not_consecutive [of a b c]
  by (cases L) (auto simp: evaluate3 spec_rule_def)

lemma reward_is_REWARDS:
  "reward (evaluateHandCombination [a, b, c]) = REWARDS (combination (evaluateHandCombination [a, b, c]))"
  by (simp add: evaluate3)

lemma branch3:
  "branch_condition L [a, b, c] =
    (case L of LuckyTriple \<Rightarrow> spec_same_rank a b c \<and> spec_same_suit a b c
     | Triple \<Rightarrow> spec_same_rank a b c
     | StraightFlush \<Rightarrow> spec_consecutive a b c \<and> spec_same_suit a b c
     | Straight \<Rightarrow> spec_consecutive a b c
     | Flush \<Rightarrow> spec_same_suit a b c
     | NoneCombination \<Rightarrow> True)"
  by (cases L) (simp_all add: isStraight_spec sameRank3 sameSuit3 spec_same_rank_def spec_same_suit_def)

lemma not_shadowed:
  "branch_condition L [a, b, c] \<Longrightarrow> REWARDS L \<le> reward (evaluateHandCombination [a, b, c])"
  using same_rank_not_consecutive [of a b c]
  by (cases L) (auto simp: evaluate3 branch3)

text \<open>
  C3. For every hand of three cards exactly one of the six rules of the specification
  applies, and it is the label \<^verbatim>\<open>evaluateHandCombination\<close> returns; the reward returned is
  the \<^verbatim>\<open>REWARDS\<close> entry of that label; the entries are ordered Lucky Triple 15 > Straight
  Flush 12 > Triple 9 > Straight 6 > Flush 5 > None 0; and whenever the test of a branch
  of the if-chain holds for the hand, the reward returned is at least that branch's
  reward, so that no earlier branch takes a hand away from a better one.
\<close>

theorem evaluate_one_label_by_priority:
  "(\<exists>!L. spec_rule L a b c)
   \<and> spec_rule (combination (evaluateHandCombination [a, b, c])) a b c
   \<and> reward (evaluateHandCombination [a, b, c])
       = REWARDS (combination (evaluateHandCombination [a, b, c]))
   \<and> (REWARDS LuckyTriple = 15 \<and> REWARDS StraightFlush = 12 \<and> REWARDS Triple = 9 \<and>
      REWARDS Straight = 6 \<and> REWARDS Flush = 5 \<and> REWARDS NoneCombination = 0)
   \<and> (REWARDS LuckyTriple > REWARDS StraightFlush \<and> REWARDS StraightFlush > REWARDS Triple \<and>
      REWARDS Triple > REWARDS Straight \<and> REWARDS Straight > REWARDS Flush \<and>
      REWARDS Flush > REWARDS NoneCombination)
   \<and> (\<forall>L. branch_condition L [a, b, c]
          \<longrightarrow> REWARDS L \<le> reward (evaluateHandCombination [a, b, c]))"
proof -
  have one: "\<exists>!L. spec_rule L a b c"
    unfolding rule_iff by blast
  have self: "spec_rule (combination (evaluateHandCombination [a, b, c])) a b c"
    by (simp add: rule_iff)
  show ?thesis
    using one self reward_is_REWARDS [of a b c] not_shadowed [of _ a b c]
    by simp
qed

theorem evaluate_one_label_by_priority_witness:
  "branch_condition Flush
     [\<lparr>suit = Hearts, rank = Three, hidden = False\<rparr>,
      \<lparr>suit = Hearts, rank = Ace, hidden = False\<rparr>,
      \<lparr>suit = Hearts, rank = Two, hidden = False\<rparr>]
   \<and> REWARDS Flush
       \<le> reward (evaluateHandCombination
           [\<lparr>suit = Hearts, rank = Three, hidden = False\<rparr>,
            \<lparr>suit = Hearts, rank = Ace, hidden = False\<rparr>,
            \<lparr>suit = Hearts, rank = Two, hidden = False\<rparr>])
   \<and> combination (evaluateHandCombination
           [\<lparr>suit = Hearts, rank = Three, hidden = False\<rparr>,
            \<lparr>suit = Hearts, rank = Ace, hidden = False\<rparr>,
            \<lparr>suit = Hearts, rank = Two, hidden = False\<rparr>]) = StraightFlush"
proof -
  let ?a = "\<lparr>suit = Hearts, rank = Three, hidden = False\<rparr>"
  let ?b = "\<lparr>suit = Hearts, rank = Ace, hidden = False\<rparr>"
  let ?c = "\<lparr>suit = Hearts, rank = Two, hidden = False\<rparr>"
  have b: "branch_condition Flush [?a, ?b, ?c]"
    by (simp add: sameSuit_def)
  have r: "REWARDS Flush \<le> reward (evaluateHandCombination [?a, ?b, ?c])"
    using evaluate_one_label_by_priority [of ?a ?b ?c, THEN conjunct2, THEN conjunct2,
        THEN conjunct2, THEN conjunct2, THEN conjunct2, THEN spec, of Flush] b
    by (rule mp)
  have l: "combination (evaluateHandCombination [?a, ?b, ?c]) = StraightFlush"
    by (simp add: evaluate3 spec_same_rank_def spec_same_suit_def spec_consecutive_def)
  show ?thesis using b r l by (intro conjI)
qed

lemma sameRank_set:
  "xs \<noteq> [] \<Longrightarrow> sameRank xs = (\<forall>c\<in>set xs. \<forall>d\<in>set xs. rank c = rank d)"
  by (cases xs) (auto simp: sameRank_def list_all_iff)

lemma sameSuit_set:
  "xs \<noteq> [] \<Longrightarrow> sameSuit xs = (\<forall>c\<in>set xs. \<forall>d\<in>set xs. suit c = suit d)"
  by (cases xs) (auto simp: sameSuit_def list_all_iff)

lemma sort_map_mset: "mset xs = mset ys \<Longrightarrow> sort (map f xs) = sort (map f ys)"
  by (rule properties_for_sort) simp_all

lemma isStraight_sorted_mset:
  assumes "mset xs = mset ys"
  shows "isStraight (sortedCards xs) = isStraight (sortedCards ys)"
  unfolding isStraight_keys sortedCards_def map_sort_key
  by (simp add: sort_map_mset [OF assms])

text \<open>
  C4. Reordering the cards of a hand changes neither the combination nor the reward
  \<^verbatim>\<open>evaluateHandCombination\<close> returns: two hands with the same multiset of cards get the
  same result.
\<close>

theorem evaluate_reorder:
  assumes "mset ys = mset xs"
  shows "evaluateHandCombination ys = evaluateHandCombination xs"
proof (cases "length xs = 3")
  case False
  moreover have "length ys = length xs" using assms by (rule mset_eq_length)
  ultimately show ?thesis by (simp add: evaluateHandCombination_def)
next
  case True
  have len: "length ys = length xs" using assms by (rule mset_eq_length)
  have ne: "xs \<noteq> []" "ys \<noteq> []" using True len by auto
  have st: "set ys = set xs" using assms by (rule mset_eq_setD)
  have r: "sameRank ys = sameRank xs" by (simp add: sameRank_set ne st)
  have s: "sameSuit ys = sameSuit xs" by (simp add: sameSuit_set ne st)
  have t: "isStraight (sortedCards ys) = isStraight (sortedCards xs)"
    using assms by (rule isStraight_sorted_mset)
  show ?thesis by (simp add: evaluateHandCombination_def len r s t)
qed

theorem evaluate_reorder_witness:
  "mset [\<lparr>suit = Hearts, rank = Two, hidden = False\<rparr>,
         \<lparr>suit = Clubs, rank = Four, hidden = False\<rparr>,
         \<lparr>suit = Spades, rank = Three, hidden = False\<rparr>]
     = mset [\<lparr>suit = Spades, rank = Three, hidden = False\<rparr>,
             \<lparr>suit = Hearts, rank = Two, hidden = False\<rparr>,
             \<lparr>suit = Clubs, rank = Four, hidden = False\<rparr>]
   \<and> evaluateHandCombination
         [\<lparr>suit = Hearts, rank = Two, hidden = False\<rparr>,
          \<lparr>suit = Clubs, rank = Four, hidden = False\<rparr>,
          \<lparr>suit = Spades, rank = Three, hidden = False\<rparr>]
     = evaluateHandCombination
         [\<lparr>suit = Spades, rank = Three, hidden = False\<rparr>,
          \<lparr>suit = Hearts, rank = Two, hidden = False\<rparr>,
          \<lparr>suit = Clubs, rank = Four, hidden = False\<rparr>]
   \<and> combination (evaluateHandCombination
         [\<lparr>suit = Hearts, rank = Two, hidden = False\<rparr>,
          \<lparr>suit = Clubs, rank = Four, hidden = False\<rparr>,
          \<lparr>suit = Spades, rank = Three, hidden = False\<rparr>]) = Straight"
proof -
  let ?a = "\<lparr>suit = Hearts, rank = Two, hidden = False\<rparr>"
  let ?b = "\<lparr>suit = Clubs, rank = Four, hidden = False\<rparr>"
  let ?c = "\<lparr>suit = Spades, rank = Three, hidden = False\<rparr>"
  have m: "mset [?a, ?b, ?c] = mset [?c, ?a, ?b]"
    by simp
  have e: "evaluateHandCombination [?a, ?b, ?c] = evaluateHandCombination [?c, ?a, ?b]"
    using evaluate_reorder [OF m] .
  have l: "combination (evaluateHandCombination [?a, ?b, ?c]) = Straight"
    by (simp add: evaluate3 spec_same_rank_def spec_same_suit_def spec_consecutive_def)
  show ?thesis using m e l by (intro conjI)
qed

section \<open>Facts about the payout ledger\<close>

lemma keyCount_append: "keyCount k (xs @ ys) = keyCount k xs + keyCount k ys"
  by (simp add: keyCount_def)

lemma keyCount_single:
  "keyCount k [(r, g, a)] = (if transactionKey r g = k then 1 else 0)"
  by (simp add: keyCount_def)

lemma keyCount_dropCall:
  assumes "n < length xs"
  shows "keyCount k xs = keyCount k (dropCall n xs) + keyCount k [xs ! n]"
proof -
  have "xs = take n xs @ xs ! n # drop (Suc n) xs"
    using assms by (rule id_take_nth_drop)
  then have "keyCount k xs = keyCount k (take n xs @ [xs ! n] @ drop (Suc n) xs)"
    by simp
  then show ?thesis
    by (simp add: keyCount_def dropCall_def)
qed

lemma ledgerGuards_noPayouts: "ledgerGuards noPayouts []"
  by (simp add: ledgerGuards_def noPayouts_def keyCount_def)

lemma ledgerGuards_start:
  assumes "ledgerGuards p deleted"
  shows "ledgerGuards (snd (sendCardsReward_start validPublicKey r g a p)) deleted"
proof (cases "validPublicKey r \<and> map_of (paidRewards p) (transactionKey r g) = None")
  case False
  then show ?thesis using assms by (auto simp: sendCardsReward_start_def)
next
  case True
  let ?k0 = "transactionKey r g"
  let ?q = "snd (sendCardsReward_start validPublicKey r g a p)"
  have sel: "submitted ?q = submitted p" "inFlight ?q = inFlight p @ [(r, g, a)]"
    "paidRewards ?q = AList.update ?k0 Pending (paidRewards p)"
    using True by (simp_all add: sendCardsReward_start_def)
  have "keyCount k (submitted ?q) + keyCount k (inFlight ?q)
            \<le> (if map_of (paidRewards ?q) k = None then 0 else 1) + count_list deleted k
        \<and> (0 < keyCount k (inFlight ?q) \<and> k \<notin> set deleted
             \<longrightarrow> map_of (paidRewards ?q) k = Some Pending)" for k
  proof -
    have g: "keyCount k (submitted p) + keyCount k (inFlight p)
            \<le> (if map_of (paidRewards p) k = None then 0 else 1) + count_list deleted k"
      and h: "0 < keyCount k (inFlight p) \<and> k \<notin> set deleted
               \<longrightarrow> map_of (paidRewards p) k = Some Pending"
      using assms unfolding ledgerGuards_def by blast+
    show ?thesis
    proof (cases "k = ?k0")
      case True
      have none: "map_of (paidRewards p) k = None"
        using True \<open>validPublicKey r \<and> _\<close> by simp
      have "keyCount k (submitted p) + keyCount k (inFlight p) \<le> count_list deleted k"
        using g none by simp
      then show ?thesis using True
        by (simp add: sel keyCount_append keyCount_single update_conv')
    next
      case False
      then show ?thesis using g h
        by (simp add: sel keyCount_append keyCount_single update_conv')
    qed
  qed
  then show ?thesis unfolding ledgerGuards_def by blast
qed

lemma finish_cases:
  "snd ((if confirms then sendCardsReward_finish_g else sendCardsReward_finish_p) reply (r, g, a) p)
       = p\<lparr>submitted := submitted p @ (case reply of FailsBeforeSend \<Rightarrow> [] | _ \<Rightarrow> [(r, g, a)]),
            paidRewards := AList.update (transactionKey r g)
              (case reply of Confirms _ \<Rightarrow> Completed
                 | ConfirmThrows _ \<Rightarrow> if confirms then Failed else Completed
                 | _ \<Rightarrow> Failed) (paidRewards p)\<rparr>"
  by (cases reply; cases confirms) simp_all

lemma ledgerGuards_resume:
  assumes "ledgerGuards p deleted"
  shows "ledgerGuards (sendCardsReward_resume confirms n reply p) deleted"
proof (cases "n < length (inFlight p)")
  case False
  then show ?thesis using assms by (simp add: sendCardsReward_resume_def)
next
  case True
  obtain r g a where c: "inFlight p ! n = (r, g, a)" by (cases "inFlight p ! n") auto
  let ?k0 = "transactionKey r g"
  let ?q = "p\<lparr>inFlight := dropCall n (inFlight p)\<rparr>"
  define sub where "sub = (case reply of FailsBeforeSend \<Rightarrow> [] | _ \<Rightarrow> [(r, g, a)])"
  define st where "st = (case reply of Confirms _ \<Rightarrow> Completed
                 | ConfirmThrows _ \<Rightarrow> if confirms then Failed else Completed
                 | _ \<Rightarrow> Failed)"
  have fin: "snd ((if confirms then sendCardsReward_finish_g else sendCardsReward_finish_p) reply (r, g, a) ?q)
       = ?q\<lparr>submitted := submitted ?q @ sub,
            paidRewards := AList.update ?k0 st (paidRewards ?q)\<rparr>"
    unfolding sub_def st_def by (rule finish_cases)
  have sub: "sub = [] \<or> sub = [(r, g, a)]"
    unfolding sub_def by (cases reply) simp_all
  have split: "\<And>k. keyCount k (inFlight p) = keyCount k (dropCall n (inFlight p)) +
                  (if ?k0 = k then 1 else 0)"
    using keyCount_dropCall [OF True] c by (simp add: keyCount_single)
  have res: "sendCardsReward_resume confirms n reply p
      = ?q\<lparr>submitted := submitted ?q @ sub,
            paidRewards := AList.update ?k0 st (paidRewards ?q)\<rparr>"
    using True c fin by (simp add: sendCardsReward_resume_def)
  let ?res = "sendCardsReward_resume confirms n reply p"
  have sel: "submitted ?res = submitted p @ sub"
    "inFlight ?res = dropCall n (inFlight p)"
    "paidRewards ?res = AList.update ?k0 st (paidRewards p)"
    by (simp_all add: res)
  have "keyCount k (submitted ?res) + keyCount k (inFlight ?res)
            \<le> (if map_of (paidRewards ?res) k = None then 0 else 1) + count_list deleted k
        \<and> (0 < keyCount k (inFlight ?res) \<and> k \<notin> set deleted
             \<longrightarrow> map_of (paidRewards ?res) k = Some Pending)" for k
  proof -
    have g: "keyCount k (submitted p) + keyCount k (inFlight p)
            \<le> (if map_of (paidRewards p) k = None then 0 else 1) + count_list deleted k"
      and h: "0 < keyCount k (inFlight p) \<and> k \<notin> set deleted
               \<longrightarrow> map_of (paidRewards p) k = Some Pending"
      using assms unfolding ledgerGuards_def by blast+
    have subc: "keyCount k sub \<le> (if ?k0 = k then 1 else 0)"
      using sub by (auto simp: keyCount_def)
    show ?thesis
    proof (cases "?k0 = k")
      case True
      have one: "keyCount k (inFlight p) = keyCount k (dropCall n (inFlight p)) + 1"
        using split [of k] True by simp
      have s1: "keyCount k sub \<le> 1" using subc True by simp
      have "keyCount k (submitted p) + keyCount k (inFlight p) \<le> 1 + count_list deleted k"
        using g by (simp split: if_splits)
      then have first: "keyCount k (submitted p) + keyCount k sub
                   + keyCount k (dropCall n (inFlight p)) \<le> 1 + count_list deleted k"
        using one s1 by linarith
      have second: "0 < keyCount k (dropCall n (inFlight p)) \<and> k \<notin> set deleted \<longrightarrow> False"
      proof
        assume a: "0 < keyCount k (dropCall n (inFlight p)) \<and> k \<notin> set deleted"
        then have "count_list deleted k = 0" by (simp add: count_list_0_iff)
        moreover have "keyCount k (submitted p) + keyCount k (inFlight p) \<le> 1 + count_list deleted k"
          using g by (simp split: if_splits)
        ultimately show False using one a by linarith
      qed
      show ?thesis using first second True
        by (auto simp: sel keyCount_append update_conv')
    next
      case False
      have "keyCount k sub = 0" using subc False by simp
      moreover have "keyCount k (inFlight p) = keyCount k (dropCall n (inFlight p))"
        using split [of k] False by simp
      moreover have "map_of (AList.update ?k0 st (paidRewards p)) k = map_of (paidRewards p) k"
        using False by (simp add: update_conv')
      ultimately show ?thesis using g h
        by (simp add: sel keyCount_append)
    qed
  qed
  then show ?thesis unfolding ledgerGuards_def by blast
qed

text \<open>A key that the cleanup takes out of the ledger is among the keys it deletes; any
  other key keeps its entry.\<close>

lemma map_of_filter_key:
  "map_of (filter (\<lambda>(k, v). keep k) al) k = (if keep k then map_of al k else None)"
  by (induction al) auto

lemma dropped_key_is_listed:
  "map_of al k \<noteq> None \<Longrightarrow> \<not> keep k
     \<Longrightarrow> k \<in> set (map fst (filter (\<lambda>(k, v). \<not> keep k) al))"
  by (induction al) (auto split: if_splits)

lemma ledgerGuards_cleanup:
  assumes "ledgerGuards p deleted"
  shows "ledgerGuards (cleanupOldPaidRewards now p) (deleted @ deletedKeys now p)"
proof -
  let ?t = "now - 7 * 24 * 60 * 60 * 1000"
  let ?q = "cleanupOldPaidRewards now p"
  have sel: "submitted ?q = submitted p" "inFlight ?q = inFlight p"
    by (simp_all add: cleanupOldPaidRewards_def Let_def)
  have ent: "map_of (paidRewards ?q) k
               = (if \<not> prunable ?t k then map_of (paidRewards p) k else None)" for k
    using map_of_filter_key [of "\<lambda>k. \<not> prunable ?t k" "paidRewards p" k]
    by (simp add: cleanupOldPaidRewards_def Let_def)
  have listed: "k \<in> set (deletedKeys now p)"
    if "map_of (paidRewards p) k \<noteq> None" and "prunable ?t k" for k
    using dropped_key_is_listed [of "paidRewards p" k "\<lambda>k. \<not> prunable ?t k"] that
    by (simp add: deletedKeys_def)
  have "keyCount k (submitted ?q) + keyCount k (inFlight ?q)
            \<le> (if map_of (paidRewards ?q) k = None then 0 else 1)
                + count_list (deleted @ deletedKeys now p) k
        \<and> (0 < keyCount k (inFlight ?q) \<and> k \<notin> set (deleted @ deletedKeys now p)
             \<longrightarrow> map_of (paidRewards ?q) k = Some Pending)" for k
  proof -
    have g: "keyCount k (submitted p) + keyCount k (inFlight p)
            \<le> (if map_of (paidRewards p) k = None then 0 else 1) + count_list deleted k"
      and h: "0 < keyCount k (inFlight p) \<and> k \<notin> set deleted
               \<longrightarrow> map_of (paidRewards p) k = Some Pending"
      using assms unfolding ledgerGuards_def by blast+
    show ?thesis
    proof (cases "map_of (paidRewards p) k \<noteq> None \<and> prunable ?t k")
      case True
      then have "k \<in> set (deletedKeys now p)" using listed by blast
      then have "0 < count_list (deletedKeys now p) k"
        using count_list_0_iff [of "deletedKeys now p" k] by auto
      then show ?thesis using g \<open>k \<in> set (deletedKeys now p)\<close>
        by (simp add: sel ent split: if_splits)
    next
      case False
      then have "map_of (paidRewards ?q) k = map_of (paidRewards p) k"
        by (auto simp: ent)
      then show ?thesis using g h by (simp add: sel)
    qed
  qed
  then show ?thesis unfolding ledgerGuards_def by blast
qed

lemma ledgerGuards_run:
  "ledgerGuards p deleted
     \<Longrightarrow> ledgerGuards (foldl (payoutStep confirms validPublicKey) p events)
           (deleted @ prunedKeys confirms validPublicKey p events)"
proof (induction events arbitrary: p deleted)
  case Nil
  then show ?case by simp
next
  case (Cons e events)
  let ?d = "(case e of Cleanup now \<Rightarrow> deletedKeys now p | _ \<Rightarrow> [])"
  have "ledgerGuards (payoutStep confirms validPublicKey p e) (deleted @ ?d)"
    using Cons.prems
    by (cases e) (simp_all add: ledgerGuards_start ledgerGuards_resume ledgerGuards_cleanup)
  from Cons.IH [OF this] show ?case by simp
qed

lemma ledgerGuards_runPayouts:
  "ledgerGuards (runPayouts confirms validPublicKey events)
     (prunedKeys confirms validPublicKey noPayouts events)"
  using ledgerGuards_run [OF ledgerGuards_noPayouts, of confirms validPublicKey events]
  by (simp add: runPayouts_def)

lemma submissionsFor_le_keyCount:
  "submissionsFor r g p \<le> keyCount (transactionKey r g) (submitted p)"
proof -
  have "\<And>xs. length (filter (\<lambda>(r', g', a). r' = r \<and> g' = g) xs)
        \<le> length (filter (\<lambda>(r', g', a). transactionKey r' g' = transactionKey r g) xs)"
    subgoal for xs by (induction xs) auto
    done
  then show ?thesis by (simp add: submissionsFor_def keyCount_def)
qed

lemma submissions_bounded_by_deletions:
  "submissionsFor r g (runPayouts confirms validPublicKey events)
     \<le> 1 + count_list (prunedKeys confirms validPublicKey noPayouts events) (transactionKey r g)"
proof -
  let ?p = "runPayouts confirms validPublicKey events"
  let ?d = "prunedKeys confirms validPublicKey noPayouts events"
  have "keyCount (transactionKey r g) (submitted ?p) + keyCount (transactionKey r g) (inFlight ?p)
     \<le> (if map_of (paidRewards ?p) (transactionKey r g) = None then 0 else 1)
         + count_list ?d (transactionKey r g)"
    using ledgerGuards_runPayouts [of confirms validPublicKey events]
    unfolding ledgerGuards_def by blast
  then have "keyCount (transactionKey r g) (submitted ?p) \<le> 1 + count_list ?d (transactionKey r g)"
    by (simp split: if_splits)
  then show ?thesis
    using submissionsFor_le_keyCount [of r g ?p] by linarith
qed

lemma submissions_at_most_one_while_retained:
  assumes "transactionKey r g \<notin> set (prunedKeys confirms validPublicKey noPayouts events)"
  shows "submissionsFor r g (runPayouts confirms validPublicKey events) \<le> 1"
proof -
  have "count_list (prunedKeys confirms validPublicKey noPayouts events) (transactionKey r g) = 0"
    using assms by (simp add: count_list_0_iff)
  then show ?thesis
    using submissions_bounded_by_deletions [of r g confirms validPublicKey events] by simp
qed

lemma inFlight_is_pending:
  assumes "(r, g, a) \<in> set (inFlight (runPayouts confirms validPublicKey events))"
    and "transactionKey r g \<notin> set (prunedKeys confirms validPublicKey noPayouts events)"
  shows "map_of (paidRewards (runPayouts confirms validPublicKey events)) (transactionKey r g)
           = Some Pending"
proof -
  let ?p = "runPayouts confirms validPublicKey events"
  let ?d = "prunedKeys confirms validPublicKey noPayouts events"
  have h: "0 < keyCount (transactionKey r g) (inFlight ?p) \<and> transactionKey r g \<notin> set ?d
          \<longrightarrow> map_of (paidRewards ?p) (transactionKey r g) = Some Pending"
    using ledgerGuards_runPayouts [of confirms validPublicKey events]
    unfolding ledgerGuards_def by blast
  have "filter (\<lambda>(r', g', a'). transactionKey r' g' = transactionKey r g) (inFlight ?p) \<noteq> []"
    using assms(1) by (auto simp: filter_empty_conv)
  then have "0 < keyCount (transactionKey r g) (inFlight ?p)"
    by (simp add: keyCount_def)
  then show ?thesis using h assms(2) by blast
qed

lemma start_marks_pending_first:
  assumes "validPublicKey r" and "map_of (paidRewards p) (transactionKey r g) = None"
  shows "fst (sendCardsReward_start validPublicKey r g a p) = AwaitsChain"
    and "map_of (paidRewards (snd (sendCardsReward_start validPublicKey r g a p)))
           (transactionKey r g) = Some Pending"
    and "submitted (snd (sendCardsReward_start validPublicKey r g a p)) = submitted p"
  using assms by (simp_all add: sendCardsReward_start_def update_conv')

lemma tracked_key_is_skipped:
  assumes "map_of (paidRewards p) (transactionKey r g) \<noteq> None"
  shows "snd (sendCardsReward confirms validPublicKey reply r g a p) = p"
    and "fst (sendCardsReward confirms validPublicKey reply r g a p)
           = (if validPublicKey r then ResolvesNull else Rejects)"
  using assms by (simp_all add: sendCardsReward_def sendCardsReward_start_def)

text \<open>How keys are read by the cleanup: the second piece between dashes is parsed as a
  decimal number. An address with a dash in it moves the pieces, and the entry is then
  kept whatever its age.\<close>

lemma prunable_examples:
  "splitDash ''Alice-1000-abc'' = [''Alice'', ''1000'', ''abc'']
   \<and> parseInt10 ''1000'' = Some 1000 \<and> parseInt10 ''12ab'' = Some 12
   \<and> parseInt10 ''abc'' = None \<and> parseInt10 '' -7'' = Some (- 7)
   \<and> prunable 2000 ''Alice-1000-abc'' \<and> \<not> prunable 1000 ''Alice-1000-abc''
   \<and> \<not> prunable 2000 ''Al-ice-1000-abc'' \<and> \<not> prunable 2000 ''Alice''"
  by code_simp

text \<open>
  C1, as amended. However calls of \<^verbatim>\<open>sendCardsReward\<close>, answers of the chain and runs of
  \<^verbatim>\<open>cleanupOldPaidRewards\<close> interleave, the payouts submitted to the chain for a given
  receiver and gameId number at most one, plus one for every time the cleanup has
  deleted the ledger entry of the pair: at most one as long as the entry is never
  deleted. Every call that is waiting for the chain, and whose entry was never deleted,
  has the entry pending; a call for a key the ledger does not have marks it pending and
  has submitted nothing by then; a call for a key the ledger has, in whatever status,
  changes nothing and submits nothing.
\<close>

theorem payout_submitted_once_while_retained:
  "submissionsFor receiverAddress gid (runPayouts confirms validPublicKey events)
     \<le> 1 + count_list (prunedKeys confirms validPublicKey noPayouts events)
             (transactionKey receiverAddress gid)
   \<and> (transactionKey receiverAddress gid
         \<notin> set (prunedKeys confirms validPublicKey noPayouts events)
       \<longrightarrow> submissionsFor receiverAddress gid (runPayouts confirms validPublicKey events) \<le> 1)
   \<and> ((receiverAddress, gid, rewardAmount)
         \<in> set (inFlight (runPayouts confirms validPublicKey events))
        \<and> transactionKey receiverAddress gid
         \<notin> set (prunedKeys confirms validPublicKey noPayouts events)
       \<longrightarrow> map_of (paidRewards (runPayouts confirms validPublicKey events))
             (transactionKey receiverAddress gid) = Some Pending)
   \<and> (validPublicKey receiverAddress
        \<and> map_of (paidRewards p) (transactionKey receiverAddress gid) = None
       \<longrightarrow> fst (sendCardsReward_start validPublicKey receiverAddress gid rewardAmount p)
             = AwaitsChain
           \<and> map_of (paidRewards
                 (snd (sendCardsReward_start validPublicKey receiverAddress gid rewardAmount p)))
               (transactionKey receiverAddress gid) = Some Pending
           \<and> submitted (snd (sendCardsReward_start validPublicKey receiverAddress gid
                 rewardAmount p)) = submitted p)
   \<and> (map_of (paidRewards p) (transactionKey receiverAddress gid) \<noteq> None
       \<longrightarrow> snd (sendCardsReward confirms validPublicKey reply receiverAddress gid rewardAmount p)
             = p
           \<and> fst (sendCardsReward confirms validPublicKey reply receiverAddress gid
                 rewardAmount p)
               = (if validPublicKey receiverAddress then ResolvesNull else Rejects))"
  using submissions_bounded_by_deletions [of receiverAddress gid confirms validPublicKey events]
    submissions_at_most_one_while_retained [of receiverAddress gid confirms validPublicKey events]
    inFlight_is_pending [of receiverAddress gid rewardAmount confirms validPublicKey events]
    start_marks_pending_first [of validPublicKey receiverAddress p gid rewardAmount]
    tracked_key_is_skipped [of p receiverAddress gid confirms validPublicKey reply rewardAmount]
  by (intro conjI impI) simp_all

theorem payout_submitted_once_while_retained_witness:
  "transactionKey ''Alice'' ''1000-abc''
     \<notin> set (prunedKeys True (\<lambda>a. True) noPayouts
              [Call ''Alice'' ''1000-abc'' 15, Call ''Alice'' ''1000-abc'' 15,
               Resume 0 (Confirms ''sig''), Cleanup 2000, Call ''Alice'' ''1000-abc'' 15])
   \<and> submissionsFor ''Alice'' ''1000-abc''
       (runPayouts True (\<lambda>a. True)
          [Call ''Alice'' ''1000-abc'' 15, Call ''Alice'' ''1000-abc'' 15,
           Resume 0 (Confirms ''sig''), Cleanup 2000, Call ''Alice'' ''1000-abc'' 15]) = 1
   \<and> (''Alice'', ''1000-abc'', 15)
       \<in> set (inFlight (runPayouts True (\<lambda>a. True) [Call ''Alice'' ''1000-abc'' 15]))
   \<and> transactionKey ''Alice'' ''1000-abc''
       \<notin> set (prunedKeys True (\<lambda>a. True) noPayouts [Call ''Alice'' ''1000-abc'' 15])
   \<and> map_of (paidRewards (runPayouts True (\<lambda>a. True) [Call ''Alice'' ''1000-abc'' 15]))
         (transactionKey ''Alice'' ''1000-abc'') = Some Pending
   \<and> map_of (paidRewards noPayouts) (transactionKey ''Alice'' ''1000-abc'') = None
   \<and> fst (sendCardsReward_start (\<lambda>a. True) ''Alice'' ''1000-abc'' 15 noPayouts) = AwaitsChain
   \<and> map_of (paidRewards \<lparr>paidRewards = [(''Alice-1000-abc'', Failed)], submitted = [],
                           inFlight = []\<rparr>)
         (transactionKey ''Alice'' ''1000-abc'') \<noteq> None
   \<and> snd (sendCardsReward True (\<lambda>a. True) (Confirms ''sig'') ''Alice'' ''1000-abc'' 15
            \<lparr>paidRewards = [(''Alice-1000-abc'', Failed)], submitted = [], inFlight = []\<rparr>)
       = \<lparr>paidRewards = [(''Alice-1000-abc'', Failed)], submitted = [], inFlight = []\<rparr>"
proof -
  let ?v = "\<lambda>a::string. True"
  let ?ev = "[Call ''Alice'' ''1000-abc'' 15, Call ''Alice'' ''1000-abc'' 15,
              Resume 0 (Confirms ''sig''), Cleanup 2000, Call ''Alice'' ''1000-abc'' 15]"
  let ?p1 = "\<lparr>paidRewards = [(''Alice-1000-abc'', Failed)], submitted = [], inFlight = []\<rparr>"
  have h1: "transactionKey ''Alice'' ''1000-abc'' \<notin> set (prunedKeys True ?v noPayouts ?ev)"
    by code_simp
  have le: "submissionsFor ''Alice'' ''1000-abc'' (runPayouts True ?v ?ev) \<le> 1"
    using payout_submitted_once_while_retained
      [of "''Alice''" "''1000-abc''" True ?v ?ev, THEN conjunct2, THEN conjunct1] h1
    by (rule mp)
  have ge: "submissionsFor ''Alice'' ''1000-abc'' (runPayouts True ?v ?ev) \<ge> 1"
    by code_simp
  have c1: "submissionsFor ''Alice'' ''1000-abc'' (runPayouts True ?v ?ev) = 1"
    using le ge by linarith
  have h2: "(''Alice'', ''1000-abc'', 15)
              \<in> set (inFlight (runPayouts True ?v [Call ''Alice'' ''1000-abc'' 15]))"
    by code_simp
  have h2': "transactionKey ''Alice'' ''1000-abc''
              \<notin> set (prunedKeys True ?v noPayouts [Call ''Alice'' ''1000-abc'' 15])"
    by code_simp
  have c2: "map_of (paidRewards (runPayouts True ?v [Call ''Alice'' ''1000-abc'' 15]))
         (transactionKey ''Alice'' ''1000-abc'') = Some Pending"
    using payout_submitted_once_while_retained
      [of "''Alice''" "''1000-abc''" True ?v "[Call ''Alice'' ''1000-abc'' 15]" 15,
       THEN conjunct2, THEN conjunct2, THEN conjunct1] conjI [OF h2 h2']
    by (rule mp)
  have h3: "?v ''Alice'' \<and> map_of (paidRewards noPayouts) (transactionKey ''Alice'' ''1000-abc'') = None"
    by (simp add: noPayouts_def)
  have c3: "fst (sendCardsReward_start ?v ''Alice'' ''1000-abc'' 15 noPayouts) = AwaitsChain"
    using payout_submitted_once_while_retained
      [of "''Alice''" "''1000-abc''" True ?v "[]" 15 noPayouts,
       THEN conjunct2, THEN conjunct2, THEN conjunct2, THEN conjunct1, THEN mp, OF h3]
    by (rule conjunct1)
  have h4: "map_of (paidRewards ?p1) (transactionKey ''Alice'' ''1000-abc'') \<noteq> None"
    by (simp add: transactionKey_def)
  have c4: "snd (sendCardsReward True ?v (Confirms ''sig'') ''Alice'' ''1000-abc'' 15 ?p1) = ?p1"
    using payout_submitted_once_while_retained
      [of "''Alice''" "''1000-abc''" True ?v "[]" 15 ?p1 "Confirms ''sig''",
       THEN conjunct2, THEN conjunct2, THEN conjunct2, THEN conjunct2, THEN mp, OF h4]
    by (rule conjunct1)
  show ?thesis using h1 c1 h2 h2' c2 h3 c3 h4 c4 by (intro conjI) simp_all
qed

text \<open>
  C1 as stated fails. A payout for Alice and the game 1000-abc (created at time 1000) is
  submitted and confirmed; a run of \<^verbatim>\<open>cleanupOldPaidRewards\<close> at time 700000000, more than
  seven days later, deletes the completed entry; the next call for the same pair finds
  no entry and submits a second payout.
\<close>

theorem payout_resubmitted_after_cleanup_counterexample:
  "submissionsFor ''Alice'' ''1000-abc''
       (runPayouts True (\<lambda>a. True)
          [Call ''Alice'' ''1000-abc'' 15, Resume 0 (Confirms ''sig1''), Cleanup 700000000,
           Call ''Alice'' ''1000-abc'' 15, Resume 0 (Confirms ''sig2'')]) = 2
   \<and> \<not> submissionsFor ''Alice'' ''1000-abc''
       (runPayouts True (\<lambda>a. True)
          [Call ''Alice'' ''1000-abc'' 15, Resume 0 (Confirms ''sig1''), Cleanup 700000000,
           Call ''Alice'' ''1000-abc'' 15, Resume 0 (Confirms ''sig2'')]) \<le> 1
   \<and> paidRewards (runPayouts True (\<lambda>a. True)
          [Call ''Alice'' ''1000-abc'' 15, Resume 0 (Confirms ''sig1'')])
       = [(''Alice-1000-abc'', Completed)]
   \<and> paidRewards (runPayouts True (\<lambda>a. True)
          [Call ''Alice'' ''1000-abc'' 15, Resume 0 (Confirms ''sig1''), Cleanup 700000000])
       = []
   \<and> prunedKeys True (\<lambda>a. True) noPayouts
          [Call ''Alice'' ''1000-abc'' 15, Resume 0 (Confirms ''sig1''), Cleanup 700000000,
           Call ''Alice'' ''1000-abc'' 15, Resume 0 (Confirms ''sig2'')]
       = [''Alice-1000-abc'']
   \<and> submissionsFor ''Alice'' ''1000-abc''
       (runPayouts False (\<lambda>a. True)
          [Call ''Alice'' ''1000-abc'' 15, Resume 0 (Confirms ''sig1''), Cleanup 700000000,
           Call ''Alice'' ''1000-abc'' 15, Resume 0 (Confirms ''sig2'')]) = 2"
  by code_simp

section \<open>The example states are reached\<close>

lemma shuffle_noSwap: "createAndShuffleLuckyTripleDeck noSwap = unshuffledDeck"
  by code_simp

lemma first_draw_p:
  "snd (draw_p anyAddress noSwap 1000 ''g1'' started_p) = afterFirstDraw_p"
  by code_simp

lemma first_draw_g:
  "snd (draw_g anyAddress noSwap 1000 ''g1'' started_g)
     = afterFirstDraw_g"
  by code_simp

section \<open>Reward processing and the paid flag\<close>

lemma processReward_tracked_key:
  assumes "\<not> rewardPaid gs" and "0 < currentReward gs" and "validPublicKey (playerId gs)"
    and "map_of (paidRewards p) (transactionKey (playerId gs) (gameId gs)) = Some st"
  shows "processReward confirms validPublicKey reply gs p = (gs\<lparr>rewardPaid := True\<rparr>, p)"
  using assms
  by (simp add: processReward_def sendCardsReward_def sendCardsReward_start_def)

text \<open>
  C2. The claim fails on the code. In the playerId-keyed server, the game of Alice after
  its first draw (a Straight Flush, reward 12) is checked at time 2000: the ledger entry
  becomes pending. The transfer then fails before anything is submitted: the entry
  becomes failed and the game is not marked paid. A second check at time 3000 finds the
  entry, \<^verbatim>\<open>sendCardsReward\<close> returns null without throwing, and \<^verbatim>\<open>processReward\<close> sets
  \<^verbatim>\<open>rewardPaid\<close> to true although the entry is still failed and nothing was ever
  submitted. The same happens in \<^verbatim>\<open>processReward\<close> taken alone, in either file, on a
  ledger whose entry for the game is failed or pending.
\<close>

theorem rewardPaid_set_on_failed_entry:
  "(let w1 = snd (check_p anyAddress 2000 ''g1'' afterFirstDraw_p);
        w2 = processReward_resume False 0 FailsBeforeSend w1;
        w3 = snd (check_p anyAddress 3000 ''g1'' w2)
    in map_of (paidRewards (ledger w1)) (transactionKey ''Alice'' ''g1'') = Some Pending
       \<and> map_of (paidRewards (ledger w2)) (transactionKey ''Alice'' ''g1'') = Some Failed
       \<and> map (\<lambda>(k, gs). rewardPaid gs) (sessions w2) = [False]
       \<and> map_of (paidRewards (ledger w3)) (transactionKey ''Alice'' ''g1'') = Some Failed
       \<and> submitted (ledger w3) = []
       \<and> map (\<lambda>(k, gs). rewardPaid gs) (sessions w3) = [True])
   \<and> processReward True anyAddress (Confirms ''sig'') gameAfterFirstDraw
         \<lparr>paidRewards = [(transactionKey ''Alice'' ''g1'', Failed)], submitted = [], inFlight = []\<rparr>
       = (gameAfterFirstDraw\<lparr>rewardPaid := True\<rparr>,
          \<lparr>paidRewards = [(transactionKey ''Alice'' ''g1'', Failed)], submitted = [],
           inFlight = []\<rparr>)
   \<and> processReward False anyAddress (Confirms ''sig'') gameAfterFirstDraw
         \<lparr>paidRewards = [(transactionKey ''Alice'' ''g1'', Pending)], submitted = [],
          inFlight = [(''Alice'', ''g1'', 12)]\<rparr>
       = (gameAfterFirstDraw\<lparr>rewardPaid := True\<rparr>,
          \<lparr>paidRewards = [(transactionKey ''Alice'' ''g1'', Pending)], submitted = [],
           inFlight = [(''Alice'', ''g1'', 12)]\<rparr>)"
  by code_simp

section \<open>Hold and the timeout\<close>

text \<open>
  C5. The claim fails on the code for hold. The game of Alice was created at time 0 and
  has played one round; at time 61000 its budget of 60000 ms has elapsed and it is not
  ended. A hold request is served in both files: the positions are stored, the game is
  neither ended nor marked timed out, and (in the playerId-keyed file) only
  \<^verbatim>\<open>lastActionTime\<close> moves. On the same state draw, check and status of the playerId-keyed
  file answer that the game has timed out.
\<close>

theorem hold_skips_timeout_check:
  "hold_p 61000 ''g1'' [0] afterFirstDraw_p
     = (HoldOk [0],
        afterFirstDraw_p
          \<lparr>sessions :=
             [(''Alice'', gameAfterFirstDraw\<lparr>heldCards := [0], lastActionTime := 61000\<rparr>)]\<rparr>)
   \<and> hold_g ''g1'' [0] afterFirstDraw_g
     = (HoldOk [0],
        afterFirstDraw_g
          \<lparr>sessions :=
             [(''g1'', gameAfterFirstDraw\<lparr>heldCards := [0], lastActionTime := 0\<rparr>)]\<rparr>)
   \<and> GAME_TIMEOUT_MS \<le> 61000 - timestamp gameAfterFirstDraw
   \<and> \<not> isEnded gameAfterFirstDraw
   \<and> fst (draw_p anyAddress noSwap 61000 ''g1'' afterFirstDraw_p) = TimedOut_p 61000
   \<and> fst (check_p anyAddress 61000 ''g1'' afterFirstDraw_p) = TimedOut_p 61000
   \<and> fst (status_p 61000 ''g1'' afterFirstDraw_p) = TimedOut_p 61000"
  by code_simp

section \<open>Expired games\<close>

lemma verifyTimeRemaining_p_expired:
  assumes "\<not> isEnded gs" and "GAME_TIMEOUT_MS \<le> now - timestamp gs"
  shows "verifyTimeRemaining_p now gs pid completed
           = (\<lparr>tc_timeRemaining = 0, tc_isTimedOut = True, tc_isEnded = True,
                tc_serverTime = now\<rparr>,
              gs\<lparr>isEnded := True, timedOut := True\<rparr>,
              if pid \<noteq> []
              then AList.update (gameId gs)
                     \<lparr>cg_playerId = pid, cg_result = Timeout, cg_timestamp = now,
                      cg_processed = True\<rparr> completed
              else completed)"
  using assms by (simp add: verifyTimeRemaining_p_def Let_def)


text \<open>
  C6, as amended. In the playerId-keyed server, for a game in the registry that has not
  ended and whose budget has elapsed, status, draw and check all answer the status 400
  error "Game has timed out" (time remaining 0, timed out, ended), remove the game from
  the registry and record the timeout in \<^verbatim>\<open>completedGames\<close>; status returns no snapshot.
\<close>

theorem expired_game_is_refused:
  assumes "findGame_p gid w = Some (pid, gs)"
    and "\<not> isEnded gs"
    and "GAME_TIMEOUT_MS \<le> now - timestamp gs"
  shows "status_p now gid w = (TimedOut_p now, expired_p now pid gs w)
       \<and> draw_p validPublicKey rnd now gid w = (TimedOut_p now, expired_p now pid gs w)
       \<and> check_p validPublicKey now gid w = (TimedOut_p now, expired_p now pid gs w)
       \<and> fst (snd (verifyTimeRemaining_p now gs pid (completedGames w)))
           = gs\<lparr>isEnded := True, timedOut := True\<rparr>"
  using assms
  by (simp add: status_p_def draw_p_def check_p_def expired_p_def
        verifyTimeRemaining_p_expired)

theorem expired_game_is_refused_witness:
  "findGame_p ''g1'' afterFirstDraw_p = Some (''Alice'', gameAfterFirstDraw)
   \<and> \<not> isEnded gameAfterFirstDraw
   \<and> GAME_TIMEOUT_MS \<le> 61000 - timestamp gameAfterFirstDraw
   \<and> status_p 61000 ''g1'' afterFirstDraw_p
       = (TimedOut_p 61000, expired_p 61000 ''Alice'' gameAfterFirstDraw afterFirstDraw_p)
   \<and> sessions (expired_p 61000 ''Alice'' gameAfterFirstDraw afterFirstDraw_p) = []
   \<and> map (\<lambda>(k, c). (k, cg_result c))
         (completedGames (expired_p 61000 ''Alice'' gameAfterFirstDraw afterFirstDraw_p))
       = [(''g1'', Timeout)]"
proof -
  have f: "findGame_p ''g1'' afterFirstDraw_p = Some (''Alice'', gameAfterFirstDraw)"
    by code_simp
  have e: "\<not> isEnded gameAfterFirstDraw"
    by code_simp
  have t: "GAME_TIMEOUT_MS \<le> 61000 - timestamp gameAfterFirstDraw"
    by code_simp
  have s: "status_p 61000 ''g1'' afterFirstDraw_p
       = (TimedOut_p 61000, expired_p 61000 ''Alice'' gameAfterFirstDraw afterFirstDraw_p)"
    using expired_game_is_refused [OF f e t] by (rule conjunct1)
  have x: "sessions (expired_p 61000 ''Alice'' gameAfterFirstDraw afterFirstDraw_p) = []"
    by code_simp
  have c: "map (\<lambda>(k, c). (k, cg_result c))
         (completedGames (expired_p 61000 ''Alice'' gameAfterFirstDraw afterFirstDraw_p))
       = [(''g1'', Timeout)]"
    by code_simp
  show ?thesis using f e t s x c by (intro conjI)
qed

text \<open>
  C6 as stated fails: on the expired game of Alice, status of the playerId-keyed file
  answers the error and no snapshot; status of the gameId-keyed file answers a snapshot
  that is ended and timed out but still shows the reward 12 of the hand on the table.
\<close>

theorem status_of_expired_game_counterexample:
  "fst (status_p 61000 ''g1'' afterFirstDraw_p) = TimedOut_p 61000
   \<and> (\<forall>body. fst (status_p 61000 ''g1'' afterFirstDraw_p) \<noteq> StatusOk body)
   \<and> fst (status_g 61000 ''g1'' afterFirstDraw_g)
       = StatusOk \<lparr>s_gameId = ''g1'', s_playerId = ''Alice'', s_isEnded = True,
                   s_timedOut = True, s_timeRemaining = 0, s_serverTime = None,
                   s_roundsLeft = 2, s_currentCombination = StraightFlush,
                   s_currentReward = 12, s_rewardPaid = False\<rparr>"
proof -
  have a: "fst (status_p 61000 ''g1'' afterFirstDraw_p) = TimedOut_p 61000"
    by code_simp
  have b: "\<forall>body. fst (status_p 61000 ''g1'' afterFirstDraw_p) \<noteq> StatusOk body"
    by (simp add: a)
  have c: "fst (status_g 61000 ''g1'' afterFirstDraw_g)
       = StatusOk \<lparr>s_gameId = ''g1'', s_playerId = ''Alice'', s_isEnded = True,
                   s_timedOut = True, s_timeRemaining = 0, s_serverTime = None,
                   s_roundsLeft = 2, s_currentCombination = StraightFlush,
                   s_currentReward = 12, s_rewardPaid = False\<rparr>"
    by code_simp
  show ?thesis using a b c by (intro conjI)
qed

section \<open>Draw on an ended game\<close>

text \<open>
  C7, as amended. In both files, a draw on a game that is marked ended (as every game
  that has played its maximum number of rounds is) is refused with the status 400 error
  "Game has already ended", and the server state is left exactly as it was. The error
  "Maximum rounds reached for this game" is not the one returned.
\<close>

theorem draw_on_ended_game_is_refused:
  "(findGame_p gid w = Some (pid, gs) \<and> isEnded gs
      \<longrightarrow> draw_p validPublicKey rnd now gid w
            = (ErrorResponse 400 ''Game has already ended'', w))
   \<and> (findGame_g gid w = Some gs \<and> isEnded gs
      \<longrightarrow> draw_g validPublicKey rnd now gid w
            = (ErrorResponse 400 ''Game has already ended'', w))"
  by (simp add: draw_p_def draw_g_def)

text \<open>The playerId-keyed server after three draws of Alice's game, and the gameId-keyed
  one: the game has played 3 of 3 rounds and is ended.\<close>

lemma after_three_draws_p:
  "findGame_p ''g1'' afterThreeDraws_p = Some (''Alice'', gameAfterThreeDraws)
   \<and> roundsPlayed gameAfterThreeDraws = maxRounds gameAfterThreeDraws
   \<and> isEnded gameAfterThreeDraws"
  by code_simp

lemma after_three_draws_g:
  "findGame_g ''g1'' afterThreeDraws_g = Some (gameAfterThreeDraws\<lparr>lastActionTime := 0\<rparr>)
   \<and> roundsPlayed (gameAfterThreeDraws\<lparr>lastActionTime := 0\<rparr>)
       = maxRounds (gameAfterThreeDraws\<lparr>lastActionTime := 0\<rparr>)
   \<and> isEnded (gameAfterThreeDraws\<lparr>lastActionTime := 0\<rparr>)"
  by code_simp

theorem draw_on_ended_game_is_refused_witness:
  "findGame_p ''g1'' afterThreeDraws_p = Some (''Alice'', gameAfterThreeDraws)
   \<and> isEnded gameAfterThreeDraws
   \<and> draw_p anyAddress noSwap 4000 ''g1'' afterThreeDraws_p
       = (ErrorResponse 400 ''Game has already ended'', afterThreeDraws_p)
   \<and> findGame_g ''g1'' afterThreeDraws_g = Some (gameAfterThreeDraws\<lparr>lastActionTime := 0\<rparr>)
   \<and> isEnded (gameAfterThreeDraws\<lparr>lastActionTime := 0\<rparr>)
   \<and> draw_g anyAddress noSwap 4000 ''g1'' afterThreeDraws_g
       = (ErrorResponse 400 ''Game has already ended'', afterThreeDraws_g)"
proof -
  have p: "findGame_p ''g1'' afterThreeDraws_p = Some (''Alice'', gameAfterThreeDraws)
           \<and> isEnded gameAfterThreeDraws"
    using after_three_draws_p by simp
  have g: "findGame_g ''g1'' afterThreeDraws_g = Some (gameAfterThreeDraws\<lparr>lastActionTime := 0\<rparr>)
           \<and> isEnded (gameAfterThreeDraws\<lparr>lastActionTime := 0\<rparr>)"
    using after_three_draws_g by simp
  have dp: "draw_p anyAddress noSwap 4000 ''g1'' afterThreeDraws_p
       = (ErrorResponse 400 ''Game has already ended'', afterThreeDraws_p)"
    using draw_on_ended_game_is_refused
      [of "''g1''" afterThreeDraws_p "''Alice''" gameAfterThreeDraws anyAddress noSwap 4000,
       THEN conjunct1, THEN mp, OF p] .
  have dg: "draw_g anyAddress noSwap 4000 ''g1'' afterThreeDraws_g
       = (ErrorResponse 400 ''Game has already ended'', afterThreeDraws_g)"
    using draw_on_ended_game_is_refused
      [of "''g1''" afterThreeDraws_g _ "gameAfterThreeDraws\<lparr>lastActionTime := 0\<rparr>"
          anyAddress noSwap 4000,
       THEN conjunct2, THEN mp, OF g] .
  show ?thesis using p g dp dg by (intro conjI) simp_all
qed

text \<open>
  C7 as stated fails: the game of Alice has played 3 of 3 rounds and is ended, and a
  further draw is answered "Game has already ended", not "Maximum rounds reached for this
  game", in both files.
\<close>

theorem draw_after_last_round_counterexample:
  "roundsPlayed gameAfterThreeDraws = maxRounds gameAfterThreeDraws
   \<and> isEnded gameAfterThreeDraws
   \<and> findGame_p ''g1'' afterThreeDraws_p = Some (''Alice'', gameAfterThreeDraws)
   \<and> fst (draw_p anyAddress noSwap 4000 ''g1'' afterThreeDraws_p)
       = ErrorResponse 400 ''Game has already ended''
   \<and> fst (draw_p anyAddress noSwap 4000 ''g1'' afterThreeDraws_p)
       \<noteq> ErrorResponse 400 ''Maximum rounds reached for this game''
   \<and> fst (draw_g anyAddress noSwap 4000 ''g1'' afterThreeDraws_g)
       = ErrorResponse 400 ''Game has already ended''
   \<and> fst (draw_g anyAddress noSwap 4000 ''g1'' afterThreeDraws_g)
       \<noteq> ErrorResponse 400 ''Maximum rounds reached for this game''"
  by code_simp

section \<open>The guards of hold\<close>

text \<open>
  C9, as amended. In both files a hold request for a game in the registry is answered by
  two tests, in this order: more than 2 positions give the error "Cannot hold more than 2
  cards"; otherwise a round counter of 0, or of 3 and more, gives the error "Can only
  hold cards after first and second round"; otherwise the request succeeds and the
  positions are stored as they were sent. So the request succeeds if and only if there
  are at most 2 positions and the round counter is neither 0 nor 3 or more, which for a
  counter that is not negative and the configured maximum of 3 rounds is
  0 < roundsPlayed < maxRounds. The positions themselves are not inspected: duplicates
  and indices outside 0, 1, 2 are accepted.
\<close>

theorem hold_guards:
  "(findGame_p gid w = Some (pid, gs) \<longrightarrow>
      hold_p now gid cardIndexes w
        = (if length cardIndexes > 2
           then (ErrorResponse 400 ''Cannot hold more than 2 cards'', w)
           else if roundsPlayed gs = 0 \<or> roundsPlayed gs \<ge> 3
           then (ErrorResponse 400 ''Can only hold cards after first and second round'', w)
           else (HoldOk cardIndexes,
                 w\<lparr>sessions :=
                     AList.update pid (gs\<lparr>heldCards := cardIndexes, lastActionTime := now\<rparr>)
                       (sessions w)\<rparr>))
      \<and> ((\<exists>held. fst (hold_p now gid cardIndexes w) = HoldOk held)
           = (length cardIndexes \<le> 2 \<and> roundsPlayed gs \<noteq> 0 \<and> roundsPlayed gs < 3)))
   \<and> (findGame_g gid w = Some gs \<longrightarrow>
      hold_g gid cardIndexes w
        = (if length cardIndexes > 2
           then (ErrorResponse 400 ''Cannot hold more than 2 cards'', w)
           else if roundsPlayed gs = 0 \<or> roundsPlayed gs \<ge> 3
           then (ErrorResponse 400 ''Can only hold cards after first and second round'', w)
           else (HoldOk cardIndexes,
                 w\<lparr>sessions :=
                     AList.update gid (gs\<lparr>heldCards := cardIndexes\<rparr>) (sessions w)\<rparr>))
      \<and> ((\<exists>held. fst (hold_g gid cardIndexes w) = HoldOk held)
           = (length cardIndexes \<le> 2 \<and> roundsPlayed gs \<noteq> 0 \<and> roundsPlayed gs < 3)))
   \<and> (0 \<le> roundsPlayed gs \<and> maxRounds gs = MAX_ROUNDS \<longrightarrow>
        (roundsPlayed gs \<noteq> 0 \<and> roundsPlayed gs < 3)
          = (0 < roundsPlayed gs \<and> roundsPlayed gs < maxRounds gs))"
  by (auto simp: hold_p_def hold_g_def MAX_ROUNDS_def)

theorem hold_guards_witness:
  "findGame_p ''g1'' afterFirstDraw_p = Some (''Alice'', gameAfterFirstDraw)
   \<and> fst (hold_p 1500 ''g1'' [0, 2] afterFirstDraw_p) = HoldOk [0, 2]
   \<and> fst (hold_p 1500 ''g1'' [0, 1, 2] afterFirstDraw_p)
       = ErrorResponse 400 ''Cannot hold more than 2 cards''
   \<and> findGame_g ''g1'' afterThreeDraws_g = Some (gameAfterThreeDraws\<lparr>lastActionTime := 0\<rparr>)
   \<and> fst (hold_g ''g1'' [0] afterThreeDraws_g)
       = ErrorResponse 400 ''Can only hold cards after first and second round''
   \<and> 0 \<le> roundsPlayed gameAfterFirstDraw \<and> maxRounds gameAfterFirstDraw = MAX_ROUNDS
   \<and> 0 < roundsPlayed gameAfterFirstDraw
   \<and> roundsPlayed gameAfterFirstDraw < maxRounds gameAfterFirstDraw"
proof -
  have fp: "findGame_p ''g1'' afterFirstDraw_p = Some (''Alice'', gameAfterFirstDraw)"
    by code_simp
  have fg: "findGame_g ''g1'' afterThreeDraws_g = Some (gameAfterThreeDraws\<lparr>lastActionTime := 0\<rparr>)"
    by code_simp
  have r: "0 \<le> roundsPlayed gameAfterFirstDraw \<and> maxRounds gameAfterFirstDraw = MAX_ROUNDS"
    by code_simp
  have r3: "roundsPlayed (gameAfterThreeDraws\<lparr>lastActionTime := 0\<rparr>) = 3"
    "roundsPlayed gameAfterFirstDraw = 1"
    by code_simp+
  have a: "fst (hold_p 1500 ''g1'' [0, 2] afterFirstDraw_p) = HoldOk [0, 2]"
    using hold_guards [of "''g1''" afterFirstDraw_p "''Alice''" gameAfterFirstDraw 1500 "[0, 2]",
        THEN conjunct1, THEN mp, OF fp, THEN conjunct1] r3
    by simp
  have b: "fst (hold_p 1500 ''g1'' [0, 1, 2] afterFirstDraw_p)
       = ErrorResponse 400 ''Cannot hold more than 2 cards''"
    using hold_guards [of "''g1''" afterFirstDraw_p "''Alice''" gameAfterFirstDraw 1500 "[0, 1, 2]",
        THEN conjunct1, THEN mp, OF fp, THEN conjunct1]
    by simp
  have c: "fst (hold_g ''g1'' [0] afterThreeDraws_g)
       = ErrorResponse 400 ''Can only hold cards after first and second round''"
    using hold_guards [of "''g1''" afterThreeDraws_g _ "gameAfterThreeDraws\<lparr>lastActionTime := 0\<rparr>"
          _ "[0]",
        THEN conjunct2, THEN conjunct1, THEN mp, OF fg, THEN conjunct1] r3
    by simp
  have d: "0 < roundsPlayed gameAfterFirstDraw
           \<and> roundsPlayed gameAfterFirstDraw < maxRounds gameAfterFirstDraw"
    using hold_guards [of _ _ _ gameAfterFirstDraw, THEN conjunct2, THEN conjunct2, THEN mp, OF r]
      r3
    by simp
  show ?thesis using fp fg r a b c d by (intro conjI) simp_all
qed

text \<open>
  C9 as stated fails: on Alice's game after its first draw, a hold of the duplicate
  positions 0, 0 and a hold of the positions 7 and -1 both succeed, in both files.
\<close>

theorem hold_malformed_positions_counterexample:
  "fst (hold_p 1500 ''g1'' [0, 0] afterFirstDraw_p) = HoldOk [0, 0]
   \<and> fst (hold_p 1500 ''g1'' [7, - 1] afterFirstDraw_p) = HoldOk [7, - 1]
   \<and> fst (hold_g ''g1'' [0, 0] afterFirstDraw_g) = HoldOk [0, 0]
   \<and> fst (hold_g ''g1'' [7, - 1] afterFirstDraw_g) = HoldOk [7, - 1]
   \<and> map (\<lambda>(k, gs). heldCards gs) (sessions (snd (hold_p 1500 ''g1'' [7, - 1] afterFirstDraw_p)))
       = [[7, - 1]]"
  by code_simp

section \<open>Dealing a hand\<close>

lemma popCard_Some:
  "popCard d = (Some c, d') \<Longrightarrow> d = d' @ [c]"
  by (cases d) (auto simp del: butlast.simps last.simps simp: snoc_eq_iff_butlast)

lemma popCard_None: "popCard d = (None, d') \<Longrightarrow> d = [] \<and> d' = []"
  by (cases d) auto

lemma drawAllNew_removes:
  "drawAllNew n d = (cs, d') \<Longrightarrow> None \<notin> set cs
     \<Longrightarrow> length cs = n \<and> d = d' @ rev (map the cs)"
proof (induction n arbitrary: d cs d')
  case 0
  then show ?case by simp
next
  case (Suc n)
  obtain c d1 where p: "popCard d = (c, d1)" by (cases "popCard d") auto
  obtain rest d2 where r: "drawAllNew n d1 = (rest, d2)" by (cases "drawAllNew n d1") auto
  have cs: "cs = c # rest" and d': "d' = d2" using Suc.prems(1) p r by simp_all
  obtain x where c: "c = Some x" using Suc.prems(2) cs by (cases c) auto
  have "None \<notin> set rest" using Suc.prems(2) cs by simp
  then have ih: "length rest = n \<and> d1 = d2 @ rev (map the rest)"
    using Suc.IH [OF r] by simp
  have "d = d1 @ [x]" using popCard_Some p c by simp
  then show ?case using ih cs d' c by simp
qed

text \<open>The entries of a dealt hand at the indices that are not held.\<close>

lemma drawKeepingHeld_removes:
  "drawKeepingHeld held prev idx d = (cs, d') \<Longrightarrow> None \<notin> set cs
     \<Longrightarrow> length cs = length idx
       \<and> d = d' @ rev (map (\<lambda>(i, c). the c) (filter (\<lambda>(i, c). int i \<notin> set held) (zip idx cs)))
       \<and> (\<forall>j < length idx. int (idx ! j) \<in> set held \<longrightarrow> cs ! j = Some (prev ! (idx ! j)))"
proof (induction idx arbitrary: d cs d')
  case Nil
  then show ?case by simp
next
  case (Cons i idx)
  show ?case
  proof (cases "int i \<in> set held")
    case True
    obtain rest d2 where r: "drawKeepingHeld held prev idx d = (rest, d2)"
      by (cases "drawKeepingHeld held prev idx d") auto
    have cs: "cs = (if i < length prev then Some (prev ! i) else None) # rest" and d': "d' = d2"
      using Cons.prems(1) True r by simp_all
    have lt: "i < length prev" using Cons.prems(2) cs by (auto split: if_splits)
    have "None \<notin> set rest" using Cons.prems(2) cs by simp
    then have ih: "length rest = length idx
       \<and> d = d2 @ rev (map (\<lambda>(i, c). the c) (filter (\<lambda>(i, c). int i \<notin> set held) (zip idx rest)))
       \<and> (\<forall>j < length idx. int (idx ! j) \<in> set held \<longrightarrow> rest ! j = Some (prev ! (idx ! j)))"
      using Cons.IH [OF r] by simp
    have nth: "\<forall>j < length (i # idx). int ((i # idx) ! j) \<in> set held
                 \<longrightarrow> cs ! j = Some (prev ! ((i # idx) ! j))"
    proof (intro allI impI)
      fix j assume "j < length (i # idx)" and "int ((i # idx) ! j) \<in> set held"
      then show "cs ! j = Some (prev ! ((i # idx) ! j))"
        using ih cs lt by (cases j) simp_all
    qed
    show ?thesis using ih cs d' True lt nth by simp
  next
    case False
    obtain c d1 where p: "popCard d = (c, d1)" by (cases "popCard d") auto
    obtain rest d2 where r: "drawKeepingHeld held prev idx d1 = (rest, d2)"
      by (cases "drawKeepingHeld held prev idx d1") auto
    have cs: "cs = c # rest" and d': "d' = d2" using Cons.prems(1) False p r by simp_all
    obtain x where c: "c = Some x" using Cons.prems(2) cs by (cases c) auto
    have "None \<notin> set rest" using Cons.prems(2) cs by simp
    then have ih: "length rest = length idx
       \<and> d1 = d2 @ rev (map (\<lambda>(i, c). the c) (filter (\<lambda>(i, c). int i \<notin> set held) (zip idx rest)))
       \<and> (\<forall>j < length idx. int (idx ! j) \<in> set held \<longrightarrow> rest ! j = Some (prev ! (idx ! j)))"
      using Cons.IH [OF r] by simp
    have dd: "d = d1 @ [x]" using popCard_Some p c by simp
    have nth: "\<forall>j < length (i # idx). int ((i # idx) ! j) \<in> set held
                 \<longrightarrow> cs ! j = Some (prev ! ((i # idx) ! j))"
    proof (intro allI impI)
      fix j assume "j < length (i # idx)" and "int ((i # idx) ! j) \<in> set held"
      then show "cs ! j = Some (prev ! ((i # idx) ! j))"
        using ih cs False by (cases j) simp_all
    qed
    show ?thesis using ih cs d' False c dd nth by simp
  qed
qed

lemma dealNewCards_fresh:
  assumes "dealNewCards rnd gs = (cs, d')" and "None \<notin> set cs"
  shows "length cs = 3"
    and "dealingDeck rnd gs = d' @ rev (map (\<lambda>i. the (cs ! i)) (freshPositions gs))"
    and "roundsPlayed gs \<noteq> 0 \<Longrightarrow> i < 3 \<Longrightarrow> int i \<in> set (heldCards gs)
           \<Longrightarrow> cs ! i = Some (cards gs ! i)"
proof -
  show len: "length cs = 3"
  proof (cases "roundsPlayed gs = 0")
    case True
    then have "drawAllNew 3 (dealingDeck rnd gs) = (cs, d')"
      using assms(1) by (simp add: dealNewCards_def dealingDeck_def Let_def)
    then show ?thesis using drawAllNew_removes assms(2) by blast
  next
    case False
    then have "drawKeepingHeld (heldCards gs) (cards gs) [0, 1, 2] (dealingDeck rnd gs) = (cs, d')"
      using assms(1) by (simp add: dealNewCards_def dealingDeck_def Let_def)
    from drawKeepingHeld_removes [OF this assms(2)] show ?thesis by simp
  qed
  then obtain a b c where cs: "cs = [a, b, c]"
    by (auto simp: numeral_3_eq_3 length_Suc_conv)
  show "dealingDeck rnd gs = d' @ rev (map (\<lambda>i. the (cs ! i)) (freshPositions gs))"
  proof (cases "roundsPlayed gs = 0")
    case True
    then have "drawAllNew 3 (dealingDeck rnd gs) = (cs, d')"
      using assms(1) by (simp add: dealNewCards_def dealingDeck_def Let_def)
    from drawAllNew_removes [OF this assms(2)]
    show ?thesis using True cs by (simp add: freshPositions_def)
  next
    case False
    then have "drawKeepingHeld (heldCards gs) (cards gs) [0, 1, 2] (dealingDeck rnd gs) = (cs, d')"
      using assms(1) by (simp add: dealNewCards_def dealingDeck_def Let_def)
    from drawKeepingHeld_removes [OF this assms(2)]
    have "dealingDeck rnd gs
            = d' @ rev (map (\<lambda>(i, c). the c)
                         (filter (\<lambda>(i, c). int i \<notin> set (heldCards gs)) (zip [0, 1, 2] cs)))"
      by blast
    then show ?thesis using False cs by (simp add: freshPositions_def)
  qed
  show "cs ! i = Some (cards gs ! i)"
    if "roundsPlayed gs \<noteq> 0" and "i < 3" and "int i \<in> set (heldCards gs)"
  proof -
    have k: "drawKeepingHeld (heldCards gs) (cards gs) [0, 1, 2] (dealingDeck rnd gs) = (cs, d')"
      using assms(1) that(1) by (simp add: dealNewCards_def dealingDeck_def Let_def)
    have "i = 0 \<or> i = 1 \<or> i = 2" using that(2) by arith
    then have idx: "[0, 1, 2] ! i = i" by auto
    from drawKeepingHeld_removes [OF k assms(2)]
    have "\<forall>j < length [0::nat, 1, 2]. int ([0, 1, 2] ! j) \<in> set (heldCards gs)
            \<longrightarrow> cs ! j = Some (cards gs ! ([0, 1, 2] ! j))"
      by blast
    then show ?thesis using that(2,3) idx by simp
  qed
qed


lemma lastRound_p_frame:
  "lastRound_p validPublicKey now pid gs w = (gs1, w1, m)
     \<Longrightarrow> cards gs1 = cards gs \<and> deck gs1 = deck gs \<and> heldCards gs1 = heldCards gs
         \<and> roundsPlayed gs1 = roundsPlayed gs"
  by (auto simp: lastRound_p_def Let_def split: if_splits prod.splits)

lemma lastRound_g_frame:
  "lastRound_g validPublicKey now gid gs w = (gs1, w1, m)
     \<Longrightarrow> cards gs1 = cards gs \<and> deck gs1 = deck gs \<and> heldCards gs1 = heldCards gs
         \<and> roundsPlayed gs1 = roundsPlayed gs"
  by (auto simp: lastRound_g_def Let_def split: if_splits prod.splits)

lemma verifyTimeRemaining_p_frame:
  "verifyTimeRemaining_p now gs pid completed = (tc, gs1, completed1)
     \<Longrightarrow> cards gs1 = cards gs \<and> deck gs1 = deck gs \<and> heldCards gs1 = heldCards gs
         \<and> roundsPlayed gs1 = roundsPlayed gs"
  by (auto simp: verifyTimeRemaining_p_def Let_def split: if_splits)

lemma verifyTimeRemaining_g_frame:
  "verifyTimeRemaining_g now gs w = (tc, gs1, w1)
     \<Longrightarrow> cards gs1 = cards gs \<and> deck gs1 = deck gs \<and> heldCards gs1 = heldCards gs
         \<and> roundsPlayed gs1 = roundsPlayed gs"
  by (auto simp: verifyTimeRemaining_g_def handleTimedOutGame_def Let_def split: if_splits)

lemma dealAndRespond_p_ok:
  assumes "dealAndRespond_p validPublicKey rnd now pid gs tc w = (DrawOk body, w')"
  shows "\<exists>cs d gs'. dealNewCards rnd gs = (cs, d) \<and> None \<notin> set cs
           \<and> map_of (sessions w') pid = Some gs' \<and> cards gs' = map the cs \<and> deck gs' = d
           \<and> heldCards gs' = [] \<and> d_cards body = map the cs"
proof -
  obtain cs d where dn: "dealNewCards rnd gs = (cs, d)"
    by (cases "dealNewCards rnd gs") auto
  have nn: "None \<notin> set cs"
    using assms dn by (auto simp: dealAndRespond_p_def)
  define hand where "hand = map the cs"
  define gsA where "gsA = gs\<lparr>deck := d, cards := hand,
      currentCombination := combination (evaluateHandCombination hand),
      currentReward := reward (evaluateHandCombination hand),
      roundsPlayed := roundsPlayed gs + 1, lastActionTime := now, heldCards := []\<rparr>"
  obtain gs1 w1 m where lr: "lastRound_p validPublicKey now pid gsA w = (gs1, w1, m)"
    by (cases "lastRound_p validPublicKey now pid gsA w") auto
  have f1: "cards gs1 = hand \<and> deck gs1 = d \<and> heldCards gs1 = []"
    using lastRound_p_frame [OF lr] by (simp add: gsA_def)
  have nt: "\<not> heldLogThrows gs1 (heldCards gs) (cards gs)"
  proof
    assume "heldLogThrows gs1 (heldCards gs) (cards gs)"
    then have "fst (dealAndRespond_p validPublicKey rnd now pid gs tc w) = InternalError"
      unfolding dealAndRespond_p_def dn
      using nn lr by (simp add: Let_def hand_def [symmetric] gsA_def [symmetric])
    then show False using assms by simp
  qed
  obtain rt gs2 c2 where tr:
    "(if isEnded gs1 then (0, gs1, completedGames w1)
      else (case verifyTimeRemaining_p now gs1 pid (completedGames w1) of
              (timeStatus, gs2, completed2) \<Rightarrow> (tc_timeRemaining timeStatus, gs2, completed2)))
     = (rt, gs2, c2)"
    by (metis prod_cases3)
  have f2: "cards gs2 = hand \<and> deck gs2 = d \<and> heldCards gs2 = []"
  proof (cases "isEnded gs1")
    case True
    then show ?thesis using tr f1 by simp
  next
    case False
    obtain ts g2 k2 where v: "verifyTimeRemaining_p now gs1 pid (completedGames w1) = (ts, g2, k2)"
      by (cases "verifyTimeRemaining_p now gs1 pid (completedGames w1)") auto
    then have "gs2 = g2" using tr False by simp
    then show ?thesis using verifyTimeRemaining_p_frame [OF v] f1 by simp
  qed
  have res: "dealAndRespond_p validPublicKey rnd now pid gs tc w
      = (DrawOk \<lparr>d_cards = hand, d_combination = combination (evaluateHandCombination hand),
                 d_reward = reward (evaluateHandCombination hand),
                 d_roundsLeft = maxRounds gs2 - roundsPlayed gs2,
                 d_remainingCards = int (length (deck gs2)),
                 d_isEnded = isEnded gs2, d_timeRemaining = rt,
                 d_serverTime = Some (tc_serverTime tc),
                 d_previouslyHeld = heldCards gs,
                 d_playerId = pid, d_rewardPaid = rewardPaid gs2\<rparr>,
         w1\<lparr>sessions :=
              AList.update pid (gs2\<lparr>rewardPaid := (if m then True else rewardPaid gs2)\<rparr>)
                (sessions w1),
            completedGames := c2\<rparr>)"
    unfolding dealAndRespond_p_def dn
    using nn lr nt tr by (simp add: Let_def hand_def [symmetric] gsA_def [symmetric])
  have w': "w' = w1\<lparr>sessions :=
              AList.update pid (gs2\<lparr>rewardPaid := (if m then True else rewardPaid gs2)\<rparr>)
                (sessions w1),
            completedGames := c2\<rparr>"
    and b: "d_cards body = hand"
    using assms res by auto
  have "map_of (sessions w') pid = Some (gs2\<lparr>rewardPaid := (if m then True else rewardPaid gs2)\<rparr>)"
    by (simp add: w' update_conv')
  then show ?thesis using dn nn f2 b hand_def by auto
qed

lemma dealAndRespond_g_ok:
  assumes "dealAndRespond_g validPublicKey rnd now gid gs w = (DrawOk body, w')"
  shows "\<exists>cs d gs'. dealNewCards rnd gs = (cs, d) \<and> None \<notin> set cs
           \<and> map_of (sessions w') gid = Some gs' \<and> cards gs' = map the cs \<and> deck gs' = d
           \<and> heldCards gs' = [] \<and> d_cards body = map the cs"
proof -
  obtain cs d where dn: "dealNewCards rnd gs = (cs, d)"
    by (cases "dealNewCards rnd gs") auto
  have nn: "None \<notin> set cs"
    using assms dn by (auto simp: dealAndRespond_g_def)
  define hand where "hand = map the cs"
  define gsA where "gsA = gs\<lparr>deck := d, cards := hand,
      currentCombination := combination (evaluateHandCombination hand),
      currentReward := reward (evaluateHandCombination hand),
      roundsPlayed := roundsPlayed gs + 1, heldCards := []\<rparr>"
  obtain gs1 w1 m where lr: "lastRound_g validPublicKey now gid gsA w = (gs1, w1, m)"
    by (cases "lastRound_g validPublicKey now gid gsA w") auto
  have f1: "cards gs1 = hand \<and> deck gs1 = d \<and> heldCards gs1 = []"
    using lastRound_g_frame [OF lr] by (simp add: gsA_def)
  have nt: "\<not> heldLogThrows gs1 (heldCards gs) (cards gs)"
  proof
    assume "heldLogThrows gs1 (heldCards gs) (cards gs)"
    then have "fst (dealAndRespond_g validPublicKey rnd now gid gs w) = InternalError"
      unfolding dealAndRespond_g_def dn
      using nn lr by (simp add: Let_def hand_def [symmetric] gsA_def [symmetric])
    then show False using assms by simp
  qed
  obtain rt gs2 w2 where tr:
    "(if isEnded gs1 then (0, gs1, w1)
      else (case verifyTimeRemaining_g now gs1 w1 of
              (timeStatus, gs2, w2) \<Rightarrow> (timeRemaining_g timeStatus, gs2, w2)))
     = (rt, gs2, w2)"
    by (metis prod_cases3)
  have f2: "cards gs2 = hand \<and> deck gs2 = d \<and> heldCards gs2 = []"
  proof (cases "isEnded gs1")
    case True
    then show ?thesis using tr f1 by simp
  next
    case False
    obtain ts g2 k2 where v: "verifyTimeRemaining_g now gs1 w1 = (ts, g2, k2)"
      by (cases "verifyTimeRemaining_g now gs1 w1") auto
    then have "gs2 = g2" using tr False by simp
    then show ?thesis using verifyTimeRemaining_g_frame [OF v] f1 by simp
  qed
  have res: "dealAndRespond_g validPublicKey rnd now gid gs w
      = (DrawOk \<lparr>d_cards = hand, d_combination = combination (evaluateHandCombination hand),
                 d_reward = reward (evaluateHandCombination hand),
                 d_roundsLeft = maxRounds gs2 - roundsPlayed gs2,
                 d_remainingCards = int (length (deck gs2)),
                 d_isEnded = isEnded gs2, d_timeRemaining = rt,
                 d_serverTime = None,
                 d_previouslyHeld = heldCards gs,
                 d_playerId = playerId gs2, d_rewardPaid = rewardPaid gs2\<rparr>,
         w2\<lparr>sessions :=
              AList.update gid (gs2\<lparr>rewardPaid := (if m then True else rewardPaid gs2)\<rparr>)
                (sessions w2)\<rparr>)"
    unfolding dealAndRespond_g_def dn
    using nn lr nt tr by (simp add: Let_def hand_def [symmetric] gsA_def [symmetric])
  have w': "w' = w2\<lparr>sessions :=
              AList.update gid (gs2\<lparr>rewardPaid := (if m then True else rewardPaid gs2)\<rparr>)
                (sessions w2)\<rparr>"
    and b: "d_cards body = hand"
    using assms res by auto
  have "map_of (sessions w') gid = Some (gs2\<lparr>rewardPaid := (if m then True else rewardPaid gs2)\<rparr>)"
    by (simp add: w' update_conv')
  then show ?thesis using dn nn f2 b hand_def by auto
qed

text \<open>What a successful draw leaves, given the game before it, the body of the answer
  and the game stored afterwards.\<close>

lemma dealt_hand:
  assumes dn: "dealNewCards rnd gs = (cs, d)" and nn: "None \<notin> set cs"
    and c: "cards after = map the cs" and k: "deck after = d" and h: "heldCards after = []"
    and b: "d_cards body = map the cs"
  shows "d_cards body = cards after \<and> length (cards after) = 3
      \<and> (roundsPlayed gs = 0 \<longrightarrow> freshCards gs after = cards after)
      \<and> (roundsPlayed gs \<noteq> 0 \<longrightarrow>
           (\<forall>i<3. int i \<in> set (heldCards gs) \<longrightarrow> cards after ! i = cards gs ! i))
      \<and> dealingDeck rnd gs = deck after @ rev (freshCards gs after)
      \<and> (distinct (dealingDeck rnd gs) \<longrightarrow>
           distinct (freshCards gs after) \<and> set (freshCards gs after) \<inter> set (deck after) = {})
      \<and> heldCards after = []"
proof -
  have len: "length cs = 3" using dealNewCards_fresh(1) [OF dn nn] .
  have fp: "\<forall>i \<in> set (freshPositions gs). i < 3"
    by (auto simp: freshPositions_def)
  have fc: "freshCards gs after = map (\<lambda>i. the (cs ! i)) (freshPositions gs)"
    using fp len by (simp add: freshCards_def c)
  have dk: "dealingDeck rnd gs = deck after @ rev (freshCards gs after)"
    using dealNewCards_fresh(2) [OF dn nn] by (simp add: fc k)
  have held: "\<forall>i<3. roundsPlayed gs \<noteq> 0 \<longrightarrow> int i \<in> set (heldCards gs)
                \<longrightarrow> cards after ! i = cards gs ! i"
  proof (intro allI impI)
    fix i :: nat assume i: "i < 3" and r: "roundsPlayed gs \<noteq> 0"
      and m: "int i \<in> set (heldCards gs)"
    have "cs ! i = Some (cards gs ! i)" using dealNewCards_fresh(3) [OF dn nn r i m] .
    then show "cards after ! i = cards gs ! i" using i len by (simp add: c)
  qed
  have dist: "distinct (dealingDeck rnd gs) \<longrightarrow>
           distinct (freshCards gs after) \<and> set (freshCards gs after) \<inter> set (deck after) = {}"
    unfolding dk by auto
  have l3: "length (cards after) = 3" using len by (simp add: c)
  have all3: "roundsPlayed gs = 0 \<longrightarrow> freshCards gs after = cards after"
  proof
    assume r: "roundsPlayed gs = 0"
    obtain x y z where xyz: "cards after = [x, y, z]"
      using l3 by (auto simp: numeral_3_eq_3 length_Suc_conv)
    show "freshCards gs after = cards after"
      by (simp add: freshCards_def freshPositions_def r xyz)
  qed
  show ?thesis
    using b c l3 all3 dk held dist h by simp
qed

section \<open>The shuffled deck\<close>

lemma mset_fisherYates: "n < length d \<Longrightarrow> mset (fisherYates rnd n d) = mset d"
proof (induction n arbitrary: d)
  case 0
  then show ?case by simp
next
  case (Suc n)
  let ?i = "Suc n"
  let ?j = "rnd ?i mod (?i + 1)"
  have "?j < ?i + 1" by simp
  then have j: "?j < length d" using Suc.prems by linarith
  have sw: "mset (d[?i := d ! ?j, ?j := d ! ?i]) = mset d"
    using mset_swap [OF j Suc.prems] .
  have "n < length (d[?i := d ! ?j, ?j := d ! ?i])" using Suc.prems by simp
  from Suc.IH [OF this] show ?case using sw by (simp add: Let_def)
qed

lemma unshuffledDeck_distinct: "distinct unshuffledDeck \<and> length unshuffledDeck = 24"
  by code_simp

lemma shuffled_deck_distinct:
  "distinct (createAndShuffleLuckyTripleDeck rnd)
   \<and> length (createAndShuffleLuckyTripleDeck rnd) = 24
   \<and> set (createAndShuffleLuckyTripleDeck rnd) = set unshuffledDeck"
proof -
  have m: "mset (createAndShuffleLuckyTripleDeck rnd) = mset unshuffledDeck"
    unfolding createAndShuffleLuckyTripleDeck_def
    by (rule mset_fisherYates) (simp add: unshuffledDeck_distinct)
  show ?thesis
    using mset_eq_imp_distinct_iff [OF m] mset_eq_length [OF m] mset_eq_setD [OF m]
      unshuffledDeck_distinct by simp
qed

lemma dealingDeck_distinct: "distinct (deck gs) \<Longrightarrow> distinct (dealingDeck rnd gs)"
  by (simp add: dealingDeck_def shuffled_deck_distinct)

lemma verifyTimeRemaining_p_not_timed_out:
  "verifyTimeRemaining_p now gs pid completed = (tc, gs1, completed1)
     \<Longrightarrow> \<not> tc_isTimedOut tc \<Longrightarrow> gs1 = gs \<and> completed1 = completed"
  by (auto simp: verifyTimeRemaining_p_def Let_def split: if_splits)

lemma draw_p_ok:
  assumes f: "findGame_p gid w = Some (pid, gs)"
    and d: "draw_p validPublicKey rnd now gid w = (DrawOk body, w')"
  shows "\<exists>tc. dealAndRespond_p validPublicKey rnd now pid gs tc w = (DrawOk body, w')"
proof -
  obtain tc gs1 c1 where v: "verifyTimeRemaining_p now gs pid (completedGames w) = (tc, gs1, c1)"
    by (cases "verifyTimeRemaining_p now gs pid (completedGames w)") auto
  have e: "\<not> isEnded gs"
  proof
    assume "isEnded gs"
    then have "draw_p validPublicKey rnd now gid w
                 = (ErrorResponse 400 ''Game has already ended'', w)"
      by (simp add: draw_p_def f)
    then show False using d by simp
  qed
  have t: "\<not> tc_isTimedOut tc"
  proof
    assume "tc_isTimedOut tc"
    then have "fst (draw_p validPublicKey rnd now gid w) = TimedOut_p (tc_serverTime tc)"
      by (simp add: draw_p_def f e v)
    then show False using d by simp
  qed
  have same: "gs1 = gs" "c1 = completedGames w"
    using verifyTimeRemaining_p_not_timed_out [OF v t] by simp_all
  have v': "verifyTimeRemaining_p now gs pid (completedGames w) = (tc, gs, completedGames w)"
    using v same by simp
  have r: "\<not> maxRounds gs \<le> roundsPlayed gs"
  proof
    assume "maxRounds gs \<le> roundsPlayed gs"
    then have "fst (draw_p validPublicKey rnd now gid w)
                 = ErrorResponse 400 ''Maximum rounds reached for this game''"
      by (simp add: draw_p_def f e v' t)
    then show False using d by simp
  qed
  have "draw_p validPublicKey rnd now gid w
          = dealAndRespond_p validPublicKey rnd now pid gs tc w"
    by (simp add: draw_p_def f e v' t r)
  then show ?thesis using d by auto
qed

lemma draw_g_ok:
  assumes f: "findGame_g gid w = Some gs"
    and d: "draw_g validPublicKey rnd now gid w = (DrawOk body, w')"
  shows "\<exists>gs1 w1. dealAndRespond_g validPublicKey rnd now gid gs1 w1 = (DrawOk body, w')
           \<and> cards gs1 = cards gs \<and> deck gs1 = deck gs \<and> heldCards gs1 = heldCards gs
           \<and> roundsPlayed gs1 = roundsPlayed gs"
proof -
  obtain tc gs1 w1 where v: "verifyTimeRemaining_g now gs w = (tc, gs1, w1)"
    by (cases "verifyTimeRemaining_g now gs w") auto
  have e: "\<not> isEnded gs"
  proof
    assume "isEnded gs"
    then have "draw_g validPublicKey rnd now gid w
                 = (ErrorResponse 400 ''Game has already ended'', w)"
      by (simp add: draw_g_def f)
    then show False using d by simp
  qed
  have t: "\<not> isTimedOut_g tc" by (cases tc) simp_all
  have r: "\<not> maxRounds gs1 \<le> roundsPlayed gs1"
  proof
    assume "maxRounds gs1 \<le> roundsPlayed gs1"
    then have "fst (draw_g validPublicKey rnd now gid w)
                 = ErrorResponse 400 ''Maximum rounds reached for this game''"
      by (simp add: draw_g_def f e v t)
    then show False using d by simp
  qed
  have "draw_g validPublicKey rnd now gid w
          = dealAndRespond_g validPublicKey rnd now gid gs1 w1"
    by (simp add: draw_g_def f e v t r)
  then have "dealAndRespond_g validPublicKey rnd now gid gs1 w1 = (DrawOk body, w')"
    using d by simp
  then show ?thesis using verifyTimeRemaining_g_frame [OF v] by blast
qed

lemma same_fields_same_deal:
  assumes "cards gs1 = cards gs" and "deck gs1 = deck gs" and "heldCards gs1 = heldCards gs"
    and "roundsPlayed gs1 = roundsPlayed gs"
  shows "dealNewCards rnd gs1 = dealNewCards rnd gs"
  by (simp only: dealNewCards_def assms)

section \<open>A hand is never left undefined\<close>

lemma popCard_nonempty: "d \<noteq> [] \<Longrightarrow> popCard d = (Some (last d), butlast d)"
  by (cases d) simp_all

lemma drawAllNew_defined:
  "n \<le> length d \<Longrightarrow> None \<notin> set (fst (drawAllNew n d))"
proof (induction n arbitrary: d)
  case 0
  then show ?case by simp
next
  case (Suc n)
  then have ne: "d \<noteq> []" by auto
  have "n \<le> length (butlast d)" using Suc.prems by simp
  from Suc.IH [OF this] show ?case
    by (simp add: popCard_nonempty [OF ne] split_beta)
qed

lemma drawKeepingHeld_defined:
  "length idx \<le> length d \<Longrightarrow> \<forall>i \<in> set idx. i < length prev
     \<Longrightarrow> None \<notin> set (fst (drawKeepingHeld held prev idx d))"
proof (induction idx arbitrary: d)
  case Nil
  then show ?case by simp
next
  case (Cons i idx)
  show ?case
  proof (cases "int i \<in> set held")
    case True
    have "length idx \<le> length d" using Cons.prems(1) by simp
    moreover have "\<forall>i \<in> set idx. i < length prev" using Cons.prems(2) by simp
    ultimately have "None \<notin> set (fst (drawKeepingHeld held prev idx d))"
      by (rule Cons.IH)
    then show ?thesis using True Cons.prems(2) by (simp add: split_beta)
  next
    case False
    have ne: "d \<noteq> []" using Cons.prems(1) by auto
    have "length idx \<le> length (butlast d)" using Cons.prems(1) by simp
    moreover have "\<forall>i \<in> set idx. i < length prev" using Cons.prems(2) by simp
    ultimately have "None \<notin> set (fst (drawKeepingHeld held prev idx (butlast d)))"
      by (rule Cons.IH)
    then show ?thesis using False by (simp add: popCard_nonempty [OF ne] split_beta)
  qed
qed

text \<open>Once a round has been played the hand has three cards, and the deck dealt from
  never has fewer than three: no position of the new hand is left undefined.\<close>

lemma dealNewCards_defined:
  assumes "roundsPlayed gs = 0 \<or> length (cards gs) = 3"
  shows "None \<notin> set (fst (dealNewCards rnd gs))"
proof -
  have len: "3 \<le> length (dealingDeck rnd gs)"
    by (simp add: dealingDeck_def shuffled_deck_distinct)
  show ?thesis
  proof (cases "roundsPlayed gs = 0")
    case True
    then have "dealNewCards rnd gs = drawAllNew 3 (dealingDeck rnd gs)"
      by (simp add: dealNewCards_def dealingDeck_def Let_def)
    then show ?thesis using drawAllNew_defined [OF len] by simp
  next
    case False
    then have c: "length (cards gs) = 3" using assms by simp
    have d: "dealNewCards rnd gs
               = drawKeepingHeld (heldCards gs) (cards gs) [0, 1, 2] (dealingDeck rnd gs)"
      using False by (simp add: dealNewCards_def dealingDeck_def Let_def)
    have "None \<notin> set (fst (drawKeepingHeld (heldCards gs) (cards gs) [0, 1, 2]
                                 (dealingDeck rnd gs)))"
      by (rule drawKeepingHeld_defined) (use len c in simp_all)
    then show ?thesis using d by simp
  qed
qed

section \<open>A draw that succeeds\<close>

text \<open>The log line does not throw in the first round, nor when every held index is a
  position of the three-card hand.\<close>

lemma heldLog_quiet:
  assumes "roundsPlayed gs = 0
           \<or> length (cards gs) = 3 \<and> list_all (\<lambda>i. 0 \<le> i \<and> i < 3) (heldCards gs)"
    and "roundsPlayed gs1 = roundsPlayed gs + 1"
  shows "\<not> heldLogThrows gs1 (heldCards gs) (cards gs)"
proof (cases "roundsPlayed gs = 0")
  case True
  then show ?thesis using assms(2) by (simp add: heldLogThrows_def)
next
  case False
  then have "length (cards gs) = 3" and "list_all (\<lambda>i. 0 \<le> i \<and> i < 3) (heldCards gs)"
    using assms(1) by simp_all
  then show ?thesis by (simp add: heldLogThrows_def list_ex_iff list_all_iff)
qed

lemma dealAndRespond_p_succeeds:
  assumes "roundsPlayed gs = 0
           \<or> length (cards gs) = 3 \<and> list_all (\<lambda>i. 0 \<le> i \<and> i < 3) (heldCards gs)"
  shows "\<exists>body. fst (dealAndRespond_p validPublicKey rnd now pid gs tc w) = DrawOk body"
proof -
  obtain cs d where dn: "dealNewCards rnd gs = (cs, d)"
    by (cases "dealNewCards rnd gs") auto
  have "roundsPlayed gs = 0 \<or> length (cards gs) = 3" using assms by auto
  then have nn: "None \<notin> set cs"
    using dealNewCards_defined [of gs rnd] dn by simp
  define hand where "hand = map the cs"
  define gsA where "gsA = gs\<lparr>deck := d, cards := hand,
      currentCombination := combination (evaluateHandCombination hand),
      currentReward := reward (evaluateHandCombination hand),
      roundsPlayed := roundsPlayed gs + 1, lastActionTime := now, heldCards := []\<rparr>"
  obtain gs1 w1 m where lr: "lastRound_p validPublicKey now pid gsA w = (gs1, w1, m)"
    by (cases "lastRound_p validPublicKey now pid gsA w") auto
  have "roundsPlayed gs1 = roundsPlayed gs + 1"
    using lastRound_p_frame [OF lr] by (simp add: gsA_def)
  then have nt: "\<not> heldLogThrows gs1 (heldCards gs) (cards gs)"
    using heldLog_quiet [OF assms] by simp
  show ?thesis
    unfolding dealAndRespond_p_def dn
    using nn lr nt
    by (simp add: Let_def hand_def [symmetric] gsA_def [symmetric] split_beta)
qed

lemma dealAndRespond_g_succeeds:
  assumes "roundsPlayed gs = 0
           \<or> length (cards gs) = 3 \<and> list_all (\<lambda>i. 0 \<le> i \<and> i < 3) (heldCards gs)"
  shows "\<exists>body. fst (dealAndRespond_g validPublicKey rnd now gid gs w) = DrawOk body"
proof -
  obtain cs d where dn: "dealNewCards rnd gs = (cs, d)"
    by (cases "dealNewCards rnd gs") auto
  have "roundsPlayed gs = 0 \<or> length (cards gs) = 3" using assms by auto
  then have nn: "None \<notin> set cs"
    using dealNewCards_defined [of gs rnd] dn by simp
  define hand where "hand = map the cs"
  define gsA where "gsA = gs\<lparr>deck := d, cards := hand,
      currentCombination := combination (evaluateHandCombination hand),
      currentReward := reward (evaluateHandCombination hand),
      roundsPlayed := roundsPlayed gs + 1, heldCards := []\<rparr>"
  obtain gs1 w1 m where lr: "lastRound_g validPublicKey now gid gsA w = (gs1, w1, m)"
    by (cases "lastRound_g validPublicKey now gid gsA w") auto
  have "roundsPlayed gs1 = roundsPlayed gs + 1"
    using lastRound_g_frame [OF lr] by (simp add: gsA_def)
  then have nt: "\<not> heldLogThrows gs1 (heldCards gs) (cards gs)"
    using heldLog_quiet [OF assms] by simp
  show ?thesis
    unfolding dealAndRespond_g_def dn
    using nn lr nt
    by (simp add: Let_def hand_def [symmetric] gsA_def [symmetric] split_beta)
qed

text \<open>In the playerId-keyed file a draw is answered with a hand when the game is found,
  not ended, younger than the timeout and short of its last round.\<close>

lemma draw_p_succeeds:
  assumes f: "findGame_p gid w = Some (pid, gs)" and e: "\<not> isEnded gs"
    and t: "now - timestamp gs < GAME_TIMEOUT_MS"
    and r: "roundsPlayed gs < maxRounds gs"
    and h: "roundsPlayed gs = 0
            \<or> length (cards gs) = 3 \<and> list_all (\<lambda>i. 0 \<le> i \<and> i < 3) (heldCards gs)"
  shows "\<exists>body w'. draw_p validPublicKey rnd now gid w = (DrawOk body, w')"
proof -
  obtain tc gs1 c1 where v: "verifyTimeRemaining_p now gs pid (completedGames w) = (tc, gs1, c1)"
    by (cases "verifyTimeRemaining_p now gs pid (completedGames w)") auto
  have nt: "\<not> tc_isTimedOut tc"
    using v t by (auto simp: verifyTimeRemaining_p_def Let_def split: if_splits)
  have same: "gs1 = gs" "c1 = completedGames w"
    using verifyTimeRemaining_p_not_timed_out [OF v nt] by simp_all
  have v': "verifyTimeRemaining_p now gs pid (completedGames w) = (tc, gs, completedGames w)"
    using v same by simp
  have r': "\<not> maxRounds gs \<le> roundsPlayed gs" using r by simp
  have eq: "draw_p validPublicKey rnd now gid w
          = dealAndRespond_p validPublicKey rnd now pid gs tc w"
    by (simp add: draw_p_def f e v' nt r')
  obtain body where "fst (dealAndRespond_p validPublicKey rnd now pid gs tc w) = DrawOk body"
    using dealAndRespond_p_succeeds [OF h] by blast
  then have "draw_p validPublicKey rnd now gid w
               = (DrawOk body, snd (draw_p validPublicKey rnd now gid w))"
    using eq by (simp add: prod_eq_iff)
  then show ?thesis by blast
qed

text \<open>In the gameId-keyed file the timeout does not stop a draw, so the age of the game
  is no condition.\<close>

lemma draw_g_succeeds:
  assumes f: "findGame_g gid w = Some gs" and e: "\<not> isEnded gs"
    and r: "roundsPlayed gs < maxRounds gs"
    and h: "roundsPlayed gs = 0
            \<or> length (cards gs) = 3 \<and> list_all (\<lambda>i. 0 \<le> i \<and> i < 3) (heldCards gs)"
  shows "\<exists>body w'. draw_g validPublicKey rnd now gid w = (DrawOk body, w')"
proof -
  obtain tc gs1 w1 where v: "verifyTimeRemaining_g now gs w = (tc, gs1, w1)"
    by (cases "verifyTimeRemaining_g now gs w") auto
  have nt: "\<not> isTimedOut_g tc" by (cases tc) simp_all
  have fr: "cards gs1 = cards gs \<and> deck gs1 = deck gs \<and> heldCards gs1 = heldCards gs
         \<and> roundsPlayed gs1 = roundsPlayed gs"
    using verifyTimeRemaining_g_frame [OF v] .
  have mr: "maxRounds gs1 = maxRounds gs"
    using v by (auto simp: verifyTimeRemaining_g_def handleTimedOutGame_def Let_def
        split: if_splits)
  have r': "\<not> maxRounds gs1 \<le> roundsPlayed gs1" using r fr mr by simp
  have h1: "roundsPlayed gs1 = 0
            \<or> length (cards gs1) = 3 \<and> list_all (\<lambda>i. 0 \<le> i \<and> i < 3) (heldCards gs1)"
    using h fr by simp
  have eq: "draw_g validPublicKey rnd now gid w
          = dealAndRespond_g validPublicKey rnd now gid gs1 w1"
    by (simp add: draw_g_def f e v nt r')
  obtain body where "fst (dealAndRespond_g validPublicKey rnd now gid gs1 w1) = DrawOk body"
    using dealAndRespond_g_succeeds [OF h1] by blast
  then have "draw_g validPublicKey rnd now gid w
               = (DrawOk body, snd (draw_g validPublicKey rnd now gid w))"
    using eq by (simp add: prod_eq_iff)
  then show ?thesis by blast
qed

text \<open>A held index outside the hand makes the log line throw after the new state is
  stored: hold accepts the indices 7 and -1, and the draw that follows is answered with
  the status 500, in both files.\<close>

lemma draw_after_holding_outside_hand:
  "fst (hold_p 1500 ''g1'' [7, - 1] afterFirstDraw_p) = HoldOk [7, - 1]
   \<and> fst (draw_p anyAddress noSwap 2000 ''g1''
            (snd (hold_p 1500 ''g1'' [7, - 1] afterFirstDraw_p))) = InternalError
   \<and> fst (draw_g anyAddress noSwap 2000 ''g1''
            (snd (hold_g ''g1'' [7, - 1] afterFirstDraw_g))) = InternalError"
  by code_simp

text \<open>
  C10. In both files a draw succeeds, that is, it is answered with a hand, whenever the
  game is found, has not ended, has rounds left (and, in the playerId-keyed file, is
  younger than the timeout), and is either in its first round or has a hand of three
  cards with every held index among 0, 1, 2. After a successful draw the game stored in
  the registry has a hand of three cards, the one sent in the answer. In the first round
  all three cards of the hand are the cards popped from the deck. In a later round every
  held position keeps the card the previous hand had at that index. The other positions
  hold the cards popped from the deck, in popping order: the deck dealt from (the game's
  deck, or a new 24-card deck when fewer than 3 were left) is the deck left followed by
  those cards in reverse, so they are removed from it; when the deck dealt from has no
  duplicates (as every new deck, and every deck that had none before the draw) they are
  pairwise different and none of them is left in the deck. The held set is empty
  afterwards.
\<close>

theorem draw_deals_fresh_and_keeps_held:
  "(findGame_p gid w = Some (pid, gs) \<and> \<not> isEnded gs
      \<and> now - timestamp gs < GAME_TIMEOUT_MS \<and> roundsPlayed gs < maxRounds gs
      \<and> (roundsPlayed gs = 0
           \<or> length (cards gs) = 3 \<and> list_all (\<lambda>i. 0 \<le> i \<and> i < 3) (heldCards gs))
    \<longrightarrow> (\<exists>b v. draw_p validPublicKey rnd now gid w = (DrawOk b, v)))
   \<and> (findGame_g gid w = Some gs \<and> \<not> isEnded gs \<and> roundsPlayed gs < maxRounds gs
      \<and> (roundsPlayed gs = 0
           \<or> length (cards gs) = 3 \<and> list_all (\<lambda>i. 0 \<le> i \<and> i < 3) (heldCards gs))
    \<longrightarrow> (\<exists>b v. draw_g validPublicKey rnd now gid w = (DrawOk b, v)))
   \<and> (findGame_p gid w = Some (pid, gs)
      \<and> draw_p validPublicKey rnd now gid w = (DrawOk body, w')
    \<longrightarrow> (\<exists>after. map_of (sessions w') pid = Some after
          \<and> d_cards body = cards after \<and> length (cards after) = 3
          \<and> (roundsPlayed gs = 0 \<longrightarrow> freshCards gs after = cards after)
          \<and> (roundsPlayed gs \<noteq> 0 \<longrightarrow>
               (\<forall>i<3. int i \<in> set (heldCards gs) \<longrightarrow> cards after ! i = cards gs ! i))
          \<and> dealingDeck rnd gs = deck after @ rev (freshCards gs after)
          \<and> (distinct (dealingDeck rnd gs) \<longrightarrow>
               distinct (freshCards gs after)
               \<and> set (freshCards gs after) \<inter> set (deck after) = {})
          \<and> heldCards after = []))
   \<and> (findGame_g gid w = Some gs
      \<and> draw_g validPublicKey rnd now gid w = (DrawOk body, w')
    \<longrightarrow> (\<exists>after. map_of (sessions w') gid = Some after
          \<and> d_cards body = cards after \<and> length (cards after) = 3
          \<and> (roundsPlayed gs = 0 \<longrightarrow> freshCards gs after = cards after)
          \<and> (roundsPlayed gs \<noteq> 0 \<longrightarrow>
               (\<forall>i<3. int i \<in> set (heldCards gs) \<longrightarrow> cards after ! i = cards gs ! i))
          \<and> dealingDeck rnd gs = deck after @ rev (freshCards gs after)
          \<and> (distinct (dealingDeck rnd gs) \<longrightarrow>
               distinct (freshCards gs after)
               \<and> set (freshCards gs after) \<inter> set (deck after) = {})
          \<and> heldCards after = []))
   \<and> (distinct (deck gs) \<longrightarrow> distinct (dealingDeck rnd gs))
   \<and> distinct (createAndShuffleLuckyTripleDeck rnd)
   \<and> length (createAndShuffleLuckyTripleDeck rnd) = 24"
proof (intro conjI impI)
  assume "findGame_p gid w = Some (pid, gs) \<and> \<not> isEnded gs
      \<and> now - timestamp gs < GAME_TIMEOUT_MS \<and> roundsPlayed gs < maxRounds gs
      \<and> (roundsPlayed gs = 0
           \<or> length (cards gs) = 3 \<and> list_all (\<lambda>i. 0 \<le> i \<and> i < 3) (heldCards gs))"
  then show "\<exists>b v. draw_p validPublicKey rnd now gid w = (DrawOk b, v)"
    using draw_p_succeeds [of gid w pid gs now validPublicKey rnd] by simp
next
  assume "findGame_g gid w = Some gs \<and> \<not> isEnded gs \<and> roundsPlayed gs < maxRounds gs
      \<and> (roundsPlayed gs = 0
           \<or> length (cards gs) = 3 \<and> list_all (\<lambda>i. 0 \<le> i \<and> i < 3) (heldCards gs))"
  then show "\<exists>b v. draw_g validPublicKey rnd now gid w = (DrawOk b, v)"
    using draw_g_succeeds [of gid w gs validPublicKey rnd now] by simp
next
  assume a: "findGame_p gid w = Some (pid, gs)
      \<and> draw_p validPublicKey rnd now gid w = (DrawOk body, w')"
  then obtain tc where "dealAndRespond_p validPublicKey rnd now pid gs tc w = (DrawOk body, w')"
    using draw_p_ok by blast
  then obtain cs d after where dn: "dealNewCards rnd gs = (cs, d)" and nn: "None \<notin> set cs"
    and st: "map_of (sessions w') pid = Some after" and c: "cards after = map the cs"
    and k: "deck after = d" and h: "heldCards after = []" and b: "d_cards body = map the cs"
    using dealAndRespond_p_ok by blast
  show "\<exists>after. map_of (sessions w') pid = Some after
          \<and> d_cards body = cards after \<and> length (cards after) = 3
          \<and> (roundsPlayed gs = 0 \<longrightarrow> freshCards gs after = cards after)
          \<and> (roundsPlayed gs \<noteq> 0 \<longrightarrow>
               (\<forall>i<3. int i \<in> set (heldCards gs) \<longrightarrow> cards after ! i = cards gs ! i))
          \<and> dealingDeck rnd gs = deck after @ rev (freshCards gs after)
          \<and> (distinct (dealingDeck rnd gs) \<longrightarrow>
               distinct (freshCards gs after)
               \<and> set (freshCards gs after) \<inter> set (deck after) = {})
          \<and> heldCards after = []"
    using st dealt_hand [OF dn nn c k h b] by (intro exI [of _ after] conjI) blast+
next
  assume a: "findGame_g gid w = Some gs
      \<and> draw_g validPublicKey rnd now gid w = (DrawOk body, w')"
  then obtain gs1 w1 where dr: "dealAndRespond_g validPublicKey rnd now gid gs1 w1 = (DrawOk body, w')"
    and s1: "cards gs1 = cards gs" and s2: "deck gs1 = deck gs"
    and s3: "heldCards gs1 = heldCards gs" and s4: "roundsPlayed gs1 = roundsPlayed gs"
    using draw_g_ok by blast
  obtain cs d after where dn1: "dealNewCards rnd gs1 = (cs, d)" and nn: "None \<notin> set cs"
    and st: "map_of (sessions w') gid = Some after" and c: "cards after = map the cs"
    and k: "deck after = d" and h: "heldCards after = []" and b: "d_cards body = map the cs"
    using dealAndRespond_g_ok [OF dr] by blast
  have dn: "dealNewCards rnd gs = (cs, d)"
    using dn1 same_fields_same_deal [OF s1 s2 s3 s4] by simp
  show "\<exists>after. map_of (sessions w') gid = Some after
          \<and> d_cards body = cards after \<and> length (cards after) = 3
          \<and> (roundsPlayed gs = 0 \<longrightarrow> freshCards gs after = cards after)
          \<and> (roundsPlayed gs \<noteq> 0 \<longrightarrow>
               (\<forall>i<3. int i \<in> set (heldCards gs) \<longrightarrow> cards after ! i = cards gs ! i))
          \<and> dealingDeck rnd gs = deck after @ rev (freshCards gs after)
          \<and> (distinct (dealingDeck rnd gs) \<longrightarrow>
               distinct (freshCards gs after)
               \<and> set (freshCards gs after) \<inter> set (deck after) = {})
          \<and> heldCards after = []"
    using st dealt_hand [OF dn nn c k h b] by (intro exI [of _ after] conjI) blast+
next
  assume "distinct (deck gs)"
  then show "distinct (dealingDeck rnd gs)" by (rule dealingDeck_distinct)
next
  show "distinct (createAndShuffleLuckyTripleDeck rnd)" using shuffled_deck_distinct by blast
next
  show "length (createAndShuffleLuckyTripleDeck rnd) = 24" using shuffled_deck_distinct by blast
qed

lemma hold_reaches_afterHold:
  "hold_p 1500 ''g1'' [0, 1] afterFirstDraw_p = (HoldOk [0, 1], afterHold_p)
   \<and> hold_g ''g1'' [0, 1] afterFirstDraw_g = (HoldOk [0, 1], afterHold_g)"
  by code_simp

theorem draw_deals_fresh_and_keeps_held_witness:
  "findGame_p ''g1'' started_p = Some (''Alice'', gameAtStart)
   \<and> \<not> isEnded gameAtStart \<and> 1000 - timestamp gameAtStart < GAME_TIMEOUT_MS
   \<and> roundsPlayed gameAtStart < maxRounds gameAtStart \<and> roundsPlayed gameAtStart = 0
   \<and> (\<exists>b v. draw_p anyAddress noSwap 1000 ''g1'' started_p = (DrawOk b, v))
   \<and> draw_p anyAddress noSwap 1000 ''g1'' started_p = (DrawOk firstDrawBody_p, afterFirstDraw_p)
   \<and> map_of (sessions afterFirstDraw_p) ''Alice'' = Some gameAfterFirstDraw
   \<and> freshCards gameAtStart gameAfterFirstDraw = cards gameAfterFirstDraw
   \<and> length (cards gameAfterFirstDraw) = 3
   \<and> dealingDeck noSwap gameAtStart
       = deck gameAfterFirstDraw @ rev (cards gameAfterFirstDraw)
   \<and> findGame_g ''g1'' started_g = Some gameAtStart
   \<and> (\<exists>b v. draw_g anyAddress noSwap 1000 ''g1'' started_g = (DrawOk b, v))
   \<and> draw_g anyAddress noSwap 1000 ''g1'' started_g
       = (DrawOk (firstDrawBody_p\<lparr>d_serverTime := None\<rparr>), afterFirstDraw_g)
   \<and> findGame_p ''g1'' afterHold_p = Some (''Alice'', gameAfterHold)
   \<and> \<not> isEnded gameAfterHold \<and> 2000 - timestamp gameAfterHold < GAME_TIMEOUT_MS
   \<and> roundsPlayed gameAfterHold < maxRounds gameAfterHold
   \<and> length (cards gameAfterHold) = 3
   \<and> list_all (\<lambda>i. 0 \<le> i \<and> i < 3) (heldCards gameAfterHold)
   \<and> (\<exists>b v. draw_p anyAddress noSwap 2000 ''g1'' afterHold_p = (DrawOk b, v))
   \<and> draw_p anyAddress noSwap 2000 ''g1'' afterHold_p
       = (DrawOk secondDrawBody_p, snd (draw_p anyAddress noSwap 2000 ''g1'' afterHold_p))
   \<and> roundsPlayed gameAfterHold \<noteq> 0
   \<and> int 0 \<in> set (heldCards gameAfterHold) \<and> int 1 \<in> set (heldCards gameAfterHold)
   \<and> distinct (dealingDeck noSwap gameAfterHold)
   \<and> map_of (sessions (snd (draw_p anyAddress noSwap 2000 ''g1'' afterHold_p))) ''Alice''
       = Some gameAfterSecondDraw
   \<and> cards gameAfterSecondDraw ! 0 = cards gameAfterHold ! 0
   \<and> cards gameAfterSecondDraw ! 1 = cards gameAfterHold ! 1
   \<and> dealingDeck noSwap gameAfterHold
       = deck gameAfterSecondDraw @ rev (freshCards gameAfterHold gameAfterSecondDraw)
   \<and> freshCards gameAfterHold gameAfterSecondDraw
       = [\<lparr>suit = Spades, rank = Three, hidden = False\<rparr>]
   \<and> set (freshCards gameAfterHold gameAfterSecondDraw) \<inter> set (deck gameAfterSecondDraw) = {}
   \<and> heldCards gameAfterSecondDraw = []
   \<and> findGame_g ''g1'' afterHold_g = Some (gameAfterHold\<lparr>lastActionTime := 0\<rparr>)
   \<and> draw_g anyAddress noSwap 2000 ''g1'' afterHold_g
       = (DrawOk (secondDrawBody_p\<lparr>d_serverTime := None\<rparr>),
          snd (draw_g anyAddress noSwap 2000 ''g1'' afterHold_g))
   \<and> map_of (sessions (snd (draw_g anyAddress noSwap 2000 ''g1'' afterHold_g))) ''g1''
       = Some (gameAfterSecondDraw\<lparr>lastActionTime := 0\<rparr>)
   \<and> cards (gameAfterSecondDraw\<lparr>lastActionTime := 0\<rparr>) ! 1
       = cards (gameAfterHold\<lparr>lastActionTime := 0\<rparr>) ! 1"
proof -
  let ?wp = "snd (draw_p anyAddress noSwap 2000 ''g1'' afterHold_p)"
  let ?wg = "snd (draw_g anyAddress noSwap 2000 ''g1'' afterHold_g)"
  let ?gh = "gameAfterHold\<lparr>lastActionTime := 0\<rparr>"
  let ?gs = "gameAfterSecondDraw\<lparr>lastActionTime := 0\<rparr>"
  have fs: "findGame_p ''g1'' started_p = Some (''Alice'', gameAtStart)" by code_simp
  have e0: "\<not> isEnded gameAtStart" by code_simp
  have t0: "1000 - timestamp gameAtStart < GAME_TIMEOUT_MS" by code_simp
  have m0: "roundsPlayed gameAtStart < maxRounds gameAtStart" by code_simp
  have r0: "roundsPlayed gameAtStart = 0" by code_simp
  have s0: "\<exists>b v. draw_p anyAddress noSwap 1000 ''g1'' started_p = (DrawOk b, v)"
    using draw_deals_fresh_and_keeps_held
      [where gid = "''g1''" and w = started_p and pid = "''Alice''" and gs = gameAtStart
         and now = 1000 and validPublicKey = anyAddress and rnd = noSwap,
       THEN conjunct1, THEN mp]
      fs e0 t0 m0 r0
    by simp
  have d0: "draw_p anyAddress noSwap 1000 ''g1'' started_p
              = (DrawOk firstDrawBody_p, afterFirstDraw_p)"
    by code_simp
  have a0: "map_of (sessions afterFirstDraw_p) ''Alice'' = Some gameAfterFirstDraw"
    by code_simp
  obtain first where af0: "map_of (sessions afterFirstDraw_p) ''Alice'' = Some first"
    and l0: "length (cards first) = 3"
    and c0: "roundsPlayed gameAtStart = 0 \<longrightarrow> freshCards gameAtStart first = cards first"
    and k0: "dealingDeck noSwap gameAtStart = deck first @ rev (freshCards gameAtStart first)"
    using draw_deals_fresh_and_keeps_held
      [where gid = "''g1''" and w = started_p and pid = "''Alice''" and gs = gameAtStart
         and now = 1000 and validPublicKey = anyAddress and rnd = noSwap
         and body = firstDrawBody_p and w' = afterFirstDraw_p,
       THEN conjunct2, THEN conjunct2, THEN conjunct1, THEN mp, OF conjI [OF fs d0]]
    by blast
  have f0: "first = gameAfterFirstDraw" using af0 a0 by simp
  have c0': "freshCards gameAtStart gameAfterFirstDraw = cards gameAfterFirstDraw"
    using c0 r0 f0 by simp
  have l0': "length (cards gameAfterFirstDraw) = 3" using l0 f0 by simp
  have k0': "dealingDeck noSwap gameAtStart
       = deck gameAfterFirstDraw @ rev (cards gameAfterFirstDraw)"
    using k0 c0' f0 by simp
  have fsg: "findGame_g ''g1'' started_g = Some gameAtStart" by code_simp
  have s0g: "\<exists>b v. draw_g anyAddress noSwap 1000 ''g1'' started_g = (DrawOk b, v)"
    using draw_deals_fresh_and_keeps_held
      [where gid = "''g1''" and w = started_g and gs = gameAtStart
         and now = 1000 and validPublicKey = anyAddress and rnd = noSwap,
       THEN conjunct2, THEN conjunct1, THEN mp]
      fsg e0 m0 r0
    by simp
  have d0g: "draw_g anyAddress noSwap 1000 ''g1'' started_g
       = (DrawOk (firstDrawBody_p\<lparr>d_serverTime := None\<rparr>), afterFirstDraw_g)"
    by code_simp
  have fp: "findGame_p ''g1'' afterHold_p = Some (''Alice'', gameAfterHold)"
    by code_simp
  have e1: "\<not> isEnded gameAfterHold" by code_simp
  have t1: "2000 - timestamp gameAfterHold < GAME_TIMEOUT_MS" by code_simp
  have m1: "roundsPlayed gameAfterHold < maxRounds gameAfterHold" by code_simp
  have l1: "length (cards gameAfterHold) = 3" by code_simp
  have i1: "list_all (\<lambda>i. 0 \<le> i \<and> i < 3) (heldCards gameAfterHold)" by code_simp
  have s1: "\<exists>b v. draw_p anyAddress noSwap 2000 ''g1'' afterHold_p = (DrawOk b, v)"
    using draw_deals_fresh_and_keeps_held
      [where gid = "''g1''" and w = afterHold_p and pid = "''Alice''" and gs = gameAfterHold
         and now = 2000 and validPublicKey = anyAddress and rnd = noSwap,
       THEN conjunct1, THEN mp]
      fp e1 t1 m1 l1 i1
    by simp
  have rp: "fst (draw_p anyAddress noSwap 2000 ''g1'' afterHold_p) = DrawOk secondDrawBody_p"
    by code_simp
  have dp: "draw_p anyAddress noSwap 2000 ''g1'' afterHold_p = (DrawOk secondDrawBody_p, ?wp)"
    using rp by (simp add: prod_eq_iff)
  have r: "roundsPlayed gameAfterHold \<noteq> 0" by code_simp
  have h0: "int 0 \<in> set (heldCards gameAfterHold)" by code_simp
  have h1: "int 1 \<in> set (heldCards gameAfterHold)" by code_simp
  have dd: "distinct (dealingDeck noSwap gameAfterHold)" by code_simp
  have sp: "map_of (sessions ?wp) ''Alice'' = Some gameAfterSecondDraw" by code_simp
  have fr: "freshCards gameAfterHold gameAfterSecondDraw
       = [\<lparr>suit = Spades, rank = Three, hidden = False\<rparr>]" by code_simp
  have hd: "heldCards gameAfterSecondDraw = []" by code_simp
  obtain after where a: "map_of (sessions ?wp) ''Alice'' = Some after"
    and k: "roundsPlayed gameAfterHold \<noteq> 0 \<longrightarrow>
             (\<forall>i<3. int i \<in> set (heldCards gameAfterHold)
                \<longrightarrow> cards after ! i = cards gameAfterHold ! i)"
    and m: "dealingDeck noSwap gameAfterHold = deck after @ rev (freshCards gameAfterHold after)"
    and n: "distinct (dealingDeck noSwap gameAfterHold) \<longrightarrow>
             distinct (freshCards gameAfterHold after)
             \<and> set (freshCards gameAfterHold after) \<inter> set (deck after) = {}"
    using draw_deals_fresh_and_keeps_held
      [where gid = "''g1''" and w = afterHold_p and pid = "''Alice''" and gs = gameAfterHold
         and now = 2000 and validPublicKey = anyAddress and rnd = noSwap
         and body = secondDrawBody_p and w' = ?wp,
       THEN conjunct2, THEN conjunct2, THEN conjunct1, THEN mp, OF conjI [OF fp dp]]
    by blast
  have af: "after = gameAfterSecondDraw" using a sp by simp
  have k0h: "cards gameAfterSecondDraw ! 0 = cards gameAfterHold ! 0"
    using k r h0 af by simp
  have k1h: "cards gameAfterSecondDraw ! 1 = cards gameAfterHold ! 1"
    using k r h1 af by simp
  have m': "dealingDeck noSwap gameAfterHold
       = deck gameAfterSecondDraw @ rev (freshCards gameAfterHold gameAfterSecondDraw)"
    using m af by simp
  have n': "set (freshCards gameAfterHold gameAfterSecondDraw) \<inter> set (deck gameAfterSecondDraw) = {}"
    using n dd af by simp
  have fg: "findGame_g ''g1'' afterHold_g = Some ?gh" by code_simp
  have rg: "fst (draw_g anyAddress noSwap 2000 ''g1'' afterHold_g)
              = DrawOk (secondDrawBody_p\<lparr>d_serverTime := None\<rparr>)"
    by code_simp
  have dg: "draw_g anyAddress noSwap 2000 ''g1'' afterHold_g
              = (DrawOk (secondDrawBody_p\<lparr>d_serverTime := None\<rparr>), ?wg)"
    using rg by (simp add: prod_eq_iff)
  have sg: "map_of (sessions ?wg) ''g1'' = Some ?gs" by code_simp
  have rg0: "roundsPlayed ?gh \<noteq> 0" by code_simp
  have hg1: "int 1 \<in> set (heldCards ?gh)" by code_simp
  obtain after' where a': "map_of (sessions ?wg) ''g1'' = Some after'"
    and k': "roundsPlayed ?gh \<noteq> 0 \<longrightarrow>
             (\<forall>i<3. int i \<in> set (heldCards ?gh) \<longrightarrow> cards after' ! i = cards ?gh ! i)"
    using draw_deals_fresh_and_keeps_held
      [where gid = "''g1''" and w = afterHold_g and gs = ?gh
         and now = 2000 and validPublicKey = anyAddress and rnd = noSwap
         and body = "secondDrawBody_p\<lparr>d_serverTime := None\<rparr>" and w' = ?wg,
       THEN conjunct2, THEN conjunct2, THEN conjunct2, THEN conjunct1, THEN mp,
       OF conjI [OF fg dg]]
    by blast
  have af': "after' = ?gs" using a' sg by simp
  have kg: "cards ?gs ! 1 = cards ?gh ! 1"
    using k' rg0 hg1 af' by simp
  show ?thesis
    using fs e0 t0 m0 r0 s0 d0 a0 c0' l0' k0' fsg s0g d0g
      fp e1 t1 m1 l1 i1 s1 dp r h0 h1 dd sp k0h k1h m' fr n' hd fg dg sg kg
    by (intro conjI)
qed

section \<open>A second check\<close>











end
